theory Spec2Isabelle
  imports Main
begin

section \<open>Interpreter objects and debugger state\<close>

text \<open>
  The debugger engine of \<^verbatim>\<open>src/debugger/RDebugger.cpp\<close> works on objects of the R
  interpreter. The engine's own header, the interpreter and the other collaborators
  (source file manager, utilities, the service that owns the debug prompt) are not among
  the sources; what the engine uses of them is a type of this section or a parameter.
  Non-local exits of the interpreter (an R error, the unwinding after an interrupt) and
  the patching of the primitive table in \<open>enable\<close> and \<open>disable\<close> are outside the model.
\<close>

text \<open>
  Modelled from the spec: an interpreter handle (section 3, step target and environment
  handle) is identity-comparable. It is the nil object, a heap object, a logical scalar
  (what \<^verbatim>\<open>toSEXP(true)\<close> builds) or an external pointer holding the address of a
  \<open>BreakpointInfo\<close> (what \<^verbatim>\<open>R_MakeExternalPtr\<close> builds).
\<close>

datatype SEXP = R_NilValue | Obj nat | Lgl bool | ExtPtr nat

text \<open>The attribute names the engine reads and writes (fields of \<open>RI\<close>).\<close>

datatype attr =
  breakpointInfoAttr | srcfileAttr | isPhysicalFileFlag | stopHereFlagAttr
  | stackBottomAttr | realEnvAttr | srcrefAttr

text \<open>
  Modelled from the spec: the enumeration is declared in the engine's header; its seven
  values are those of section 3, each of which the engine names.
\<close>

datatype DebuggerCommand =
  CONTINUE | STEP_INTO | FORCE_STEP_INTO | STEP_OVER | STEP_OUT | PAUSE | STOP

text \<open>The exception that parsing and evaluation throw and the engine catches.\<close>

datatype RError = RError string

text \<open>
  Calls that leave the engine are recorded as events: a request to the source reference
  resolver, the evaluation of an expression text in an environment, a message to the
  host, a raised interpreter interrupt, and the blocking debug prompt.
\<close>

datatype event =
  ResolveStep string int | Evaluated string SEXP | Message string
  | UserInterrupt | DebugPrompt

text \<open>
  Modelled from the spec: \<open>BreakpointInfo\<close> (section 3) has a condition text, a log
  expression text and the suspend flag, under the names the engine uses for them.
\<close>

record BreakpointInfo =
  condition :: string
  evaluateAndLog :: string
  suspend :: bool

text \<open>
  Modelled from the spec: an entry of the store holds the step target and the
  \<open>BreakpointInfo\<close>, which has a stable address for the lifetime of the breakpoint
  (section 3). The step target's attribute refers to it by that address, so the entry
  keeps the address and the object lives in \<open>infoMem\<close>.
\<close>

record InternalBreakpointInfo =
  srcref :: SEXP
  info :: nat

text \<open>
  A context of the interpreter's chain, by the accessors the engine calls on it. The
  source reference of a context may be the C null pointer, which is \<open>None\<close>.
\<close>

record RContext =
  isCallContext :: bool
  getCall :: SEXP
  getFunction :: SEXP
  getSrcref :: "SEXP option"
  getEnvironment :: SEXP

text \<open>
  Modelled from the spec: \<open>ContextDump\<close> is the context frame of section 3 (call
  expression, function value, source position, environment handle), and
  \<open>RDebuggerStackFrame\<close> the stack frame (file, line, environment identity, function name),
  in the order in which the engine initialises them.
\<close>

record ContextDump =
  cd_call :: SEXP
  cd_function :: SEXP
  cd_srcref :: "SEXP option"
  cd_environment :: SEXP

record RDebuggerStackFrame =
  fileId :: string
  line :: int
  environment :: SEXP
  functionName :: string

text \<open>
  The state: the fields of the \<open>RDebugger\<close> object (with the memory of the
  \<open>BreakpointInfo\<close> objects and the next free address), then the interpreter state it
  reads and writes (attributes, debug bits, \<open>R_Srcref\<close>, \<open>R_interrupts_pending\<close>, the
  chain of contexts from \<open>R_GlobalContext\<close> outwards, innermost first) and the event log.
\<close>

record dstate =
  isEnabled :: bool
  breakpointsMuted :: bool
  currentCommand :: DebuggerCommand
  runToPositionTarget :: SEXP
  breakpoints :: "string \<Rightarrow> (int \<Rightarrow> InternalBreakpointInfo option) option"
  infoMem :: "nat \<Rightarrow> BreakpointInfo option"
  nextInfo :: nat
  stack :: "RDebuggerStackFrame list"
  lastErrorStackDump :: "ContextDump list"
  attrib :: "SEXP \<times> attr \<Rightarrow> SEXP"
  rdebug :: "SEXP \<Rightarrow> bool"
  R_Srcref :: "SEXP option"
  R_interrupts_pending :: bool
  R_GlobalContext :: "RContext list"
  events :: "event list"

text \<open>
  Functions of the repository and of the interpreter that are not part of
  \<^verbatim>\<open>RDebugger.cpp\<close> are parameters: the source file manager
  (\<open>getStepSrcref\<close>, \<open>getFunctionSrcref\<close>), the position of a source reference, the name
  of a called function, parsing, evaluation and conversion (which may throw \<open>RError\<close>),
  the default-constructed \<open>BreakpointInfo\<close>, the accessors of a block's source references
  (\<open>getSrcrefAt\<close> is \<open>getSrcref\<close> on a list and an index), the head of a call, and the
  interpreter's evaluator.
\<close>

record externals =
  getStepSrcref :: "string \<Rightarrow> int \<Rightarrow> SEXP"
  getFunctionSrcref :: "SEXP \<Rightarrow> string \<Rightarrow> SEXP"
  srcrefToPosition :: "SEXP \<Rightarrow> string \<times> int"
  getCallFunctionName :: "SEXP \<Rightarrow> string"
  parseCode :: "string \<Rightarrow> RError + SEXP"
  evalq :: "SEXP \<Rightarrow> SEXP \<Rightarrow> RError + SEXP"
  asLogical :: "SEXP \<Rightarrow> RError + SEXP"
  asBool :: "SEXP \<Rightarrow> bool"
  getPrintedValue :: "SEXP \<Rightarrow> RError + string"
  defaultInfo :: BreakpointInfo
  getBlockSrcrefs :: "SEXP \<Rightarrow> SEXP"
  getSrcrefAt :: "SEXP \<Rightarrow> nat \<Rightarrow> SEXP"
  CAR :: "SEXP \<Rightarrow> SEXP"
  Rf_eval :: "SEXP \<Rightarrow> SEXP \<Rightarrow> dstate \<Rightarrow> SEXP \<times> dstate"

subsection \<open>Attributes and the debug bit\<close>

text \<open>
  Modelled from the spec: a step target carries a debug-armed bit that the engine sets
  and clears, and objects carry attributes (sections 3 and 4.3); these are the
  interpreter's \<open>Rf_getAttrib\<close>, \<open>Rf_setAttrib\<close>, \<open>RDEBUG\<close> and \<open>SET_RDEBUG\<close>. The nil
  object carries no attribute: reading one from it gives nil, and removing one from it
  changes nothing. Attaching a non-nil value to nil is an error of the interpreter; the
  engine guards every such call with a test for nil, or passes the environment of a call
  context, and the statements about markers assume those environments are not nil.
  \<open>SET_RDEBUG\<close> writes the bit of whatever object it is given, the nil object included.
\<close>

definition Rf_getAttrib :: "dstate \<Rightarrow> SEXP \<Rightarrow> attr \<Rightarrow> SEXP" where
  "Rf_getAttrib s x a = (if x = R_NilValue then R_NilValue else attrib s (x, a))"

definition Rf_setAttrib :: "SEXP \<Rightarrow> attr \<Rightarrow> SEXP \<Rightarrow> dstate \<Rightarrow> dstate" where
  "Rf_setAttrib x a v s =
     (if x = R_NilValue then s else s\<lparr>attrib := (attrib s)((x, a) := v)\<rparr>)"

definition RDEBUG :: "dstate \<Rightarrow> SEXP \<Rightarrow> bool" where
  "RDEBUG s x = rdebug s x"

definition SET_RDEBUG :: "SEXP \<Rightarrow> bool \<Rightarrow> dstate \<Rightarrow> dstate" where
  "SET_RDEBUG x v s = s\<lparr>rdebug := (rdebug s)(x := v)\<rparr>"

definition logEvent :: "event \<Rightarrow> dstate \<Rightarrow> dstate" where
  "logEvent e s = s\<lparr>events := events s @ [e]\<rparr>"

definition muteBreakpoints :: "bool \<Rightarrow> dstate \<Rightarrow> dstate" where
  "muteBreakpoints mute s = s\<lparr>breakpointsMuted := mute\<rparr>"

definition setBreakpointInfoAttrib :: "SEXP \<Rightarrow> nat option \<Rightarrow> dstate \<Rightarrow> dstate" where
  "setBreakpointInfoAttrib sref p s =
     (case p of
        None \<Rightarrow> Rf_setAttrib sref breakpointInfoAttr R_NilValue s
      | Some a \<Rightarrow> Rf_setAttrib sref breakpointInfoAttr (ExtPtr a) s)"

definition getBreakpointInfoAttrib :: "dstate \<Rightarrow> SEXP \<Rightarrow> nat option" where
  "getBreakpointInfoAttrib s sref =
     (case Rf_getAttrib s sref breakpointInfoAttr of ExtPtr a \<Rightarrow> Some a | _ \<Rightarrow> None)"

subsection \<open>Breakpoint store\<close>

text \<open>
  \<open>breakpoints[file]\<close> default-constructs the inner map of a file not seen before;
  \<open>insert\<close> leaves an existing entry as it is. A new entry allocates its
  \<open>BreakpointInfo\<close> at a fresh address. The result is the address of the entry's
  \<open>BreakpointInfo\<close>, the C++ reference.
\<close>

definition addBreakpoint :: "externals \<Rightarrow> string \<Rightarrow> int \<Rightarrow> dstate \<Rightarrow> nat \<times> dstate" where
  "addBreakpoint X file ln s =
     (let inner = (case breakpoints s file of None \<Rightarrow> Map.empty | Some m \<Rightarrow> m);
          s0 = s\<lparr>breakpoints := (breakpoints s)(file \<mapsto> inner)\<rparr>
      in case inner ln of
           Some it \<Rightarrow> (info it, s0)
         | None \<Rightarrow>
             (let a = nextInfo s0;
                  s1 = s0\<lparr>infoMem := (infoMem s0)(a \<mapsto> defaultInfo X), nextInfo := Suc a\<rparr>;
                  sref = getStepSrcref X file ln;
                  s2 = logEvent (ResolveStep file ln) s1;
                  s3 = s2\<lparr>breakpoints :=
                         (breakpoints s2)(file \<mapsto> inner(ln \<mapsto> \<lparr>srcref = sref, info = a\<rparr>))\<rparr>
              in (a, if sref \<noteq> R_NilValue
                     then setBreakpointInfoAttrib sref (Some a) (SET_RDEBUG sref True s3)
                     else s3)))"

definition removeBreakpoint :: "string \<Rightarrow> int \<Rightarrow> dstate \<Rightarrow> dstate" where
  "removeBreakpoint file ln s =
     (case breakpoints s file of
        None \<Rightarrow> s
      | Some inner \<Rightarrow>
          (case inner ln of
             None \<Rightarrow> s
           | Some it2 \<Rightarrow>
               (let s1 = setBreakpointInfoAttrib (srcref it2) None s;
                    s2 = SET_RDEBUG (srcref it2) False s1
                in s2\<lparr>breakpoints := (breakpoints s2)(file \<mapsto> inner(ln := None)),
                      infoMem := (infoMem s2)(info it2 := None)\<rparr>)))"

definition refreshBreakpoint :: "externals \<Rightarrow> string \<Rightarrow> int \<Rightarrow> dstate \<Rightarrow> dstate" where
  "refreshBreakpoint X file ln s =
     (case breakpoints s file of
        None \<Rightarrow> s
      | Some inner \<Rightarrow>
          (case inner ln of
             None \<Rightarrow> s
           | Some it2 \<Rightarrow>
               (let s1 = setBreakpointInfoAttrib (srcref it2) None s;
                    s2 = SET_RDEBUG (srcref it2) False s1;
                    sref = getStepSrcref X file ln;
                    s3 = logEvent (ResolveStep file ln) s2;
                    s4 = s3\<lparr>breakpoints :=
                           (breakpoints s3)(file \<mapsto> inner(ln \<mapsto> it2\<lparr>srcref := sref\<rparr>))\<rparr>
                in if sref \<noteq> R_NilValue
                   then setBreakpointInfoAttrib sref (Some (info it2)) (SET_RDEBUG sref True s4)
                   else s4)))"

subsection \<open>Stepping state machine\<close>

text \<open>
  The loop of \<open>setCommand\<close> over the chain of contexts. \<open>isFirst\<close> is true until the
  first call context has been handled.
\<close>

fun setCommand_loop :: "DebuggerCommand \<Rightarrow> bool \<Rightarrow> RContext list \<Rightarrow> dstate \<Rightarrow> dstate" where
  "setCommand_loop c isFirst [] s = s"
| "setCommand_loop c isFirst (ctx # rest) s =
     (if isCallContext ctx then
        (let env = getEnvironment ctx;
             s' = (case c of
                     CONTINUE \<Rightarrow> Rf_setAttrib env stopHereFlagAttr R_NilValue s
                   | STEP_INTO \<Rightarrow> Rf_setAttrib env stopHereFlagAttr R_NilValue s
                   | STEP_OVER \<Rightarrow> Rf_setAttrib env stopHereFlagAttr (Lgl True) s
                   | STEP_OUT \<Rightarrow>
                       Rf_setAttrib env stopHereFlagAttr
                         (if isFirst then R_NilValue else Lgl True) s
                   | _ \<Rightarrow> s)
         in setCommand_loop c False rest s')
      else setCommand_loop c isFirst rest s)"

definition resetRunToPositionTarget :: "externals \<Rightarrow> dstate \<Rightarrow> dstate" where
  "resetRunToPositionTarget X s =
     (if runToPositionTarget s \<noteq> R_NilValue then
        (let s1 = SET_RDEBUG (runToPositionTarget s) False s;
             position = srcrefToPosition X (runToPositionTarget s1);
             s2 = refreshBreakpoint X (fst position) (snd position) s1
         in s2\<lparr>runToPositionTarget := R_NilValue\<rparr>)
      else s)"

definition setCommand :: "externals \<Rightarrow> DebuggerCommand \<Rightarrow> dstate \<Rightarrow> dstate" where
  "setCommand X c s =
     (let s1 = s\<lparr>currentCommand := c\<rparr>;
          s2 = resetRunToPositionTarget X s1;
          s3 = s2\<lparr>runToPositionTarget := R_NilValue\<rparr>
      in setCommand_loop c True (R_GlobalContext s3) s3)"

definition setRunToPositionCommand :: "externals \<Rightarrow> string \<Rightarrow> int \<Rightarrow> dstate \<Rightarrow> dstate" where
  "setRunToPositionCommand X file ln s =
     (let s1 = s\<lparr>currentCommand := CONTINUE\<rparr>;
          s2 = resetRunToPositionTarget X s1;
          sref = getStepSrcref X file ln;
          s3 = logEvent (ResolveStep file ln) s2
      in if sref \<noteq> R_NilValue
         then SET_RDEBUG sref True (s3\<lparr>runToPositionTarget := sref\<rparr>)
         else s3)"

subsection \<open>Condition and log evaluation\<close>

text \<open>
  The body of the \<open>try\<close> block of \<open>checkCondition\<close>: parse, evaluate, convert. Each step
  may throw; the first \<open>RError\<close> is the result.
\<close>

definition checkCondition_try :: "externals \<Rightarrow> string \<Rightarrow> SEXP \<Rightarrow> RError + bool" where
  "checkCondition_try X cond env =
     (case parseCode X cond of
        Inl e \<Rightarrow> Inl e
      | Inr expr \<Rightarrow>
          (case evalq X expr env of
             Inl e \<Rightarrow> Inl e
           | Inr v \<Rightarrow>
               (case asLogical X v of
                  Inl e \<Rightarrow> Inl e
                | Inr r \<Rightarrow> Inr (asBool X r))))"

text \<open>
  \<open>checkCondition\<close> with its \<open>catch\<close>. The result is a sum so that a thrown error would
  show as \<open>Inl\<close>. Modelled from the spec: \<open>WithDebuggerEnabled with(false)\<close> switches the
  engine off for the evaluation and restores the previous setting afterwards (section
  4.5).
\<close>

definition checkCondition ::
  "externals \<Rightarrow> string \<Rightarrow> SEXP \<Rightarrow> dstate \<Rightarrow> (RError + bool) \<times> dstate" where
  "checkCondition X cond env s =
     (if cond = [] then (Inr True, s)
      else
        (let prev = isEnabled s;
             s1 = logEvent (Evaluated cond env) (s\<lparr>isEnabled := False\<rparr>);
             r = checkCondition_try X cond env;
             s2 = s1\<lparr>isEnabled := prev\<rparr>
         in case r of
              Inr b \<Rightarrow> (Inr b, s2)
            | Inl e \<Rightarrow> (Inr False, s2)))"

definition evaluateAndLog_try :: "externals \<Rightarrow> string \<Rightarrow> SEXP \<Rightarrow> RError + string" where
  "evaluateAndLog_try X expression env =
     (case parseCode X expression of
        Inl e \<Rightarrow> Inl e
      | Inr expr \<Rightarrow>
          (case evalq X expr env of
             Inl e \<Rightarrow> Inl e
           | Inr v \<Rightarrow> getPrintedValue X v))"

definition evaluateAndLog_fun :: "externals \<Rightarrow> string \<Rightarrow> SEXP \<Rightarrow> dstate \<Rightarrow> dstate" where
  "evaluateAndLog_fun X expression env s =
     (if expression = [] then s
      else
        (let prev = isEnabled s;
             s1 = logEvent (Evaluated expression env) (s\<lparr>isEnabled := False\<rparr>);
             s2 = (case evaluateAndLog_try X expression env of
                     Inr txt \<Rightarrow> logEvent (Message txt) s1
                   | Inl (RError what) \<Rightarrow> logEvent (Message what) s1)
         in s2\<lparr>isEnabled := prev\<rparr>))"

subsection \<open>Stack builder\<close>

definition getContextDump :: "SEXP \<Rightarrow> dstate \<Rightarrow> ContextDump list" where
  "getContextDump currentCall s =
     (let initial = \<lparr>cd_call = currentCall, cd_function = R_NilValue,
                      cd_srcref = Some (case R_Srcref s of None \<Rightarrow> R_NilValue | Some r \<Rightarrow> r),
                      cd_environment = R_NilValue\<rparr>;
          dump = initial #
            map (\<lambda>ctx. \<lparr>cd_call = getCall ctx, cd_function = getFunction ctx,
                         cd_srcref = Some (case getSrcref ctx of None \<Rightarrow> R_NilValue | Some r \<Rightarrow> r),
                         cd_environment = getEnvironment ctx\<rparr>)
              (filter isCallContext (R_GlobalContext s))
      in rev dump)"

text \<open>
  The loop of \<open>buildStack\<close>. The loop variables are \<open>wasStackBottom\<close>, \<open>functionName\<close>,
  \<open>frame\<close>, \<open>functionSrcref\<close> and the stack built so far. (\<open>buildStack\<close> switches the
  engine off while it runs; nothing is evaluated here, so the switch does not show.)
\<close>

fun buildStack_loop ::
  "externals \<Rightarrow> dstate \<Rightarrow> bool \<Rightarrow> string \<Rightarrow> SEXP \<Rightarrow> SEXP \<Rightarrow> RDebuggerStackFrame list
     \<Rightarrow> ContextDump list \<Rightarrow> RDebuggerStackFrame list" where
  "buildStack_loop X s wasStackBottom fname frame functionSrcref stk [] = stk"
| "buildStack_loop X s wasStackBottom fname frame functionSrcref stk (ctx # rest) =
     (let call = cd_call ctx;
          sref0 = (case cd_srcref ctx of None \<Rightarrow> R_NilValue | Some r \<Rightarrow> r);
          sref = (if sref0 = R_NilValue then
                    (let a = Rf_getAttrib s call srcrefAttr
                     in if a = R_NilValue then functionSrcref else a)
                  else sref0);
          srcfile = Rf_getAttrib s sref srcfileAttr;
          reset = (Rf_getAttrib s frame stackBottomAttr \<noteq> R_NilValue
                     \<and> cd_environment ctx \<noteq> R_NilValue);
          wasStackBottom' =
            (if reset then True
             else wasStackBottom \<or> Rf_getAttrib s srcfile isPhysicalFileFlag \<noteq> R_NilValue);
          stk' =
            (if reset then []
             else if call \<noteq> R_NilValue \<and> wasStackBottom' then
               (let position = srcrefToPosition X sref;
                    realFrame = Rf_getAttrib s frame realEnvAttr;
                    frame' = (if realFrame \<noteq> R_NilValue then realFrame else frame);
                    fname' = (if stk = [] then [] else fname)
                in stk @ [\<lparr>fileId = fst position, line = snd position,
                            environment = frame', functionName = fname'\<rparr>])
             else stk);
          fname2 = getCallFunctionName X call;
          functionSrcref' =
            (if cd_function ctx \<noteq> R_NilValue
             then getFunctionSrcref X (cd_function ctx) fname2 else functionSrcref)
      in buildStack_loop X s wasStackBottom' fname2 (cd_environment ctx) functionSrcref' stk' rest)"

definition buildStack :: "externals \<Rightarrow> dstate \<Rightarrow> ContextDump list \<Rightarrow> RDebuggerStackFrame list" where
  "buildStack X s contexts =
     (if contexts = [] then []
      else buildStack_loop X s False [] R_NilValue R_NilValue [] contexts)"

definition getStack :: "dstate \<Rightarrow> RDebuggerStackFrame list" where
  "getStack s = stack s"

definition doHandleException :: "dstate \<Rightarrow> dstate" where
  "doHandleException s = s\<lparr>lastErrorStackDump := getContextDump R_NilValue s\<rparr>"

definition getLastErrorStack :: "externals \<Rightarrow> dstate \<Rightarrow> RDebuggerStackFrame list" where
  "getLastErrorStack X s =
     (let result = buildStack X s (lastErrorStackDump s)
      in if result \<noteq> [] then butlast result else result)"

definition resetLastErrorStack :: "dstate \<Rightarrow> dstate" where
  "resetLastErrorStack s = s\<lparr>lastErrorStackDump := []\<rparr>"

subsection \<open>Firing logic\<close>

text \<open>
  Modelled from the spec: \<open>R_CheckUserInterrupt\<close> raises the pending interpreter-level
  interrupt (section 4.3). The raise is an event; the unwinding that follows it in the
  interpreter is outside the model.
\<close>

definition R_CheckUserInterrupt :: "dstate \<Rightarrow> dstate" where
  "R_CheckUserInterrupt s = (if R_interrupts_pending s then logEvent UserInterrupt s else s)"

text \<open>
  Modelled from the spec: \<open>debugPromptHandler\<close> blocks until the host has issued a new
  command (section 4.6). The commands the host issues meanwhile are calls of \<open>setCommand\<close>
  and the like; nothing follows the handler in \<open>doBreakpoint\<close>, so they act on the state
  \<open>doBreakpoint\<close> returns, and the handler itself is the event.
\<close>

definition debugPromptHandler :: "dstate \<Rightarrow> dstate" where
  "debugPromptHandler s = logEvent DebugPrompt s"

text \<open>
  \<open>doBreakpoint\<close>. The breakpoint argument is the object the pointer refers to, \<open>None\<close>
  for \<open>nullptr\<close>. \<open>thrown\<close> stands for an exception leaving \<open>checkCondition\<close>, which
  would end the function without a prompt.
\<close>

definition doBreakpoint ::
  "externals \<Rightarrow> SEXP \<Rightarrow> BreakpointInfo option \<Rightarrow> bool \<Rightarrow> SEXP \<Rightarrow> dstate \<Rightarrow> dstate" where
  "doBreakpoint X currentCall breakpoint isStepStop env s =
     (if \<not> isEnabled s \<or> R_interrupts_pending s then s
      else if currentCommand s = STOP then
        R_CheckUserInterrupt ((setCommand X CONTINUE s)\<lparr>R_interrupts_pending := True\<rparr>)
      else
        (let suspend0 = (isStepStop \<or>
                 (R_Srcref s \<noteq> Some R_NilValue \<and> R_Srcref s = Some (runToPositionTarget s)));
             (thrown, suspend1, s1) =
               (case breakpoint of
                  None \<Rightarrow> (False, suspend0, s)
                | Some bp \<Rightarrow>
                    if breakpointsMuted s then (False, suspend0, s)
                    else
                      (case checkCondition X (condition bp) env s of
                         (Inl e, sa) \<Rightarrow> (True, suspend0, sa)
                       | (Inr False, sa) \<Rightarrow> (False, suspend0, sa)
                       | (Inr True, sa) \<Rightarrow>
                           (let sb = evaluateAndLog_fun X (evaluateAndLog bp) env sa
                            in (False, if suspend bp then True else suspend0, sb))))
         in if thrown \<or> \<not> suspend1 then s1
            else
              (let s2 = setCommand X CONTINUE s1;
                   s3 = s2\<lparr>stack := buildStack X s2 (getContextDump currentCall s2)\<rparr>
               in debugPromptHandler s3)))"

subsection \<open>Evaluation interceptor\<close>

definition getCurrentCallContext :: "dstate \<Rightarrow> RContext option" where
  "getCurrentCallContext s = find isCallContext (R_GlobalContext s)"

text \<open>
  The object behind the pointer that \<open>getBreakpointInfoAttrib\<close> returns; an address that
  the store has freed gives no object.
\<close>

definition derefInfo :: "dstate \<Rightarrow> nat option \<Rightarrow> BreakpointInfo option" where
  "derefInfo s p = (case p of None \<Rightarrow> None | Some a \<Rightarrow> infoMem s a)"

text \<open>The \<open>switch\<close> on the current command inside the loop of \<open>doBegin\<close>.\<close>

definition doBegin_stopHere :: "dstate \<Rightarrow> bool \<Rightarrow> SEXP \<Rightarrow> bool" where
  "doBegin_stopHere s isPhysical functionEnv =
     (case currentCommand s of
        STEP_INTO \<Rightarrow> isPhysical
      | FORCE_STEP_INTO \<Rightarrow> True
      | PAUSE \<Rightarrow> True
      | STOP \<Rightarrow> True
      | STEP_OVER \<Rightarrow> Rf_getAttrib s functionEnv stopHereFlagAttr \<noteq> R_NilValue
      | STEP_OUT \<Rightarrow> Rf_getAttrib s functionEnv stopHereFlagAttr \<noteq> R_NilValue
      | _ \<Rightarrow> False)"

text \<open>One pass of the loop body of \<open>doBegin\<close> up to, not including, \<open>Rf_eval\<close>.\<close>

definition doBegin_hook ::
  "externals \<Rightarrow> bool \<Rightarrow> SEXP \<Rightarrow> SEXP \<Rightarrow> SEXP \<Rightarrow> nat \<Rightarrow> SEXP \<Rightarrow> dstate \<Rightarrow> dstate" where
  "doBegin_hook X isPhysical functionEnv rho srcrefs i arg s =
     (let s1 = s\<lparr>R_Srcref := Some (getSrcrefAt X srcrefs i)\<rparr>;
          stopHere = doBegin_stopHere s1 isPhysical functionEnv;
          rDebugFlag = RDEBUG s1 (getSrcrefAt X srcrefs i)
      in if stopHere \<or> rDebugFlag then
           doBreakpoint X arg
             (if rDebugFlag
              then derefInfo s1 (getBreakpointInfoAttrib s1 (getSrcrefAt X srcrefs i))
              else None)
             stopHere rho s1
         else s1)"

fun doBegin_loop ::
  "externals \<Rightarrow> bool \<Rightarrow> SEXP \<Rightarrow> SEXP \<Rightarrow> SEXP \<Rightarrow> nat \<Rightarrow> SEXP list \<Rightarrow> SEXP \<times> dstate
     \<Rightarrow> SEXP \<times> dstate" where
  "doBegin_loop X isPhysical functionEnv rho srcrefs i [] r = r"
| "doBegin_loop X isPhysical functionEnv rho srcrefs i (arg # args) r =
     (let s1 = doBegin_hook X isPhysical functionEnv rho srcrefs i arg (snd r)
      in doBegin_loop X isPhysical functionEnv rho srcrefs (Suc i) args (Rf_eval X arg rho s1))"

definition doBegin_isPhysical :: "externals \<Rightarrow> dstate \<Rightarrow> SEXP \<Rightarrow> bool" where
  "doBegin_isPhysical X s call =
     (let srcfile = Rf_getAttrib s (getSrcrefAt X (getBlockSrcrefs X call) 0) srcfileAttr
      in Rf_getAttrib s srcfile isPhysicalFileFlag \<noteq> R_NilValue)"

text \<open>
  \<open>doBegin\<close>: the statements of the block are the list \<open>args\<close>. The call of
  \<open>getFunctionSrcref\<close> at the start is made for the manager's bookkeeping and its result
  is dropped, so it does not show here. \<open>Rf_eval\<close> stands for a statement's evaluation
  that returns; one that leaves by an error or an interrupt ends the loop in the
  interpreter and is not followed here.
\<close>

definition doBegin :: "externals \<Rightarrow> SEXP \<Rightarrow> SEXP list \<Rightarrow> SEXP \<Rightarrow> dstate \<Rightarrow> SEXP \<times> dstate" where
  "doBegin X call args rho s =
     (let functionEnv = (case getCurrentCallContext s of
                           None \<Rightarrow> R_NilValue | Some ctx \<Rightarrow> getEnvironment ctx);
          srcrefs = getBlockSrcrefs X call;
          r0 = getSrcrefAt X srcrefs 0;
          s1 = s\<lparr>R_Srcref := Some r0\<rparr>;
          isPhysical = doBegin_isPhysical X s1 call;
          s2 = (if RDEBUG s1 r0
                then doBreakpoint X (CAR X call) (derefInfo s1 (getBreakpointInfoAttrib s1 r0))
                       False rho s1
                else s1)
      in if args \<noteq> [] then
           (let r = doBegin_loop X isPhysical functionEnv rho srcrefs 1 args (R_NilValue, s2)
            in (fst r, (snd r)\<lparr>R_Srcref := Some R_NilValue\<rparr>))
         else (R_NilValue, s2))"

section \<open>Notions used in the statements\<close>

text \<open>
  The definitions of this section are not part of the program. They name what the
  statements below talk about: the stop-here marker of an environment, the environments
  of the call contexts of a chain (innermost first), whether the store holds an entry,
  whether the statement at hand is the run-to-position target, whether a breakpoint
  asks for suspension, and counters over the event log.
\<close>

definition marker :: "dstate \<Rightarrow> SEXP \<Rightarrow> SEXP" where
  "marker s env = Rf_getAttrib s env stopHereFlagAttr"

definition callEnvs :: "dstate \<Rightarrow> SEXP list" where
  "callEnvs s = map getEnvironment (filter isCallContext (R_GlobalContext s))"

definition envsOf :: "RContext list \<Rightarrow> SEXP list" where
  "envsOf cs = map getEnvironment (filter isCallContext cs)"

definition hasBreakpoint :: "dstate \<Rightarrow> string \<Rightarrow> int \<Rightarrow> bool" where
  "hasBreakpoint s file ln =
     (case breakpoints s file of None \<Rightarrow> False | Some inner \<Rightarrow> inner ln \<noteq> None)"

definition rtpHit :: "dstate \<Rightarrow> bool" where
  "rtpHit s = (R_Srcref s \<noteq> Some R_NilValue \<and> R_Srcref s = Some (runToPositionTarget s))"

definition bpFires :: "externals \<Rightarrow> BreakpointInfo option \<Rightarrow> SEXP \<Rightarrow> dstate \<Rightarrow> bool" where
  "bpFires X breakpoint env s =
     (case breakpoint of
        None \<Rightarrow> False
      | Some bp \<Rightarrow> \<not> breakpointsMuted s
          \<and> fst (checkCondition X (condition bp) env s) = Inr True \<and> suspend bp)"

definition promptCount :: "dstate \<Rightarrow> nat" where
  "promptCount s = count_list (events s) DebugPrompt"

definition evalCount :: "dstate \<Rightarrow> nat" where
  "evalCount s = length (filter (\<lambda>e. case e of Evaluated t v \<Rightarrow> True | _ \<Rightarrow> False) (events s))"

definition interruptCount :: "dstate \<Rightarrow> nat" where
  "interruptCount s = count_list (events s) UserInterrupt"

text \<open>
  The state after the breakpoint's condition and log expression have been dealt with,
  before the decision to suspend is acted upon.
\<close>

definition afterBreakpointEval :: "externals \<Rightarrow> BreakpointInfo option \<Rightarrow> SEXP \<Rightarrow> dstate \<Rightarrow> dstate" where
  "afterBreakpointEval X breakpoint env s =
     (case breakpoint of
        None \<Rightarrow> s
      | Some bp \<Rightarrow>
          if breakpointsMuted s then s
          else if fst (checkCondition X (condition bp) env s) = Inr True
               then evaluateAndLog_fun X (evaluateAndLog bp) env (snd (checkCondition X (condition bp) env s))
               else snd (checkCondition X (condition bp) env s))"

subsection \<open>The stack builder, in the words of its description\<close>

text \<open>
  A context of the snapshot together with what the loop carries into its iteration: the
  name of the function called by the previous context, the environment of the previous
  context, and the effective source position (the context's own, else the one of its call
  expression, else the declared position of the enclosing function).
\<close>

type_synonym dctx = "ContextDump \<times> string \<times> SEXP \<times> SEXP"

definition effectiveSrcref :: "dstate \<Rightarrow> SEXP \<Rightarrow> ContextDump \<Rightarrow> SEXP" where
  "effectiveSrcref s functionSrcref ctx =
     (case cd_srcref ctx of
        Some r \<Rightarrow>
          if r \<noteq> R_NilValue then r
          else if Rf_getAttrib s (cd_call ctx) srcrefAttr \<noteq> R_NilValue
               then Rf_getAttrib s (cd_call ctx) srcrefAttr else functionSrcref
      | None \<Rightarrow>
          if Rf_getAttrib s (cd_call ctx) srcrefAttr \<noteq> R_NilValue
          then Rf_getAttrib s (cd_call ctx) srcrefAttr else functionSrcref)"

definition nextFunctionSrcref :: "externals \<Rightarrow> SEXP \<Rightarrow> ContextDump \<Rightarrow> SEXP" where
  "nextFunctionSrcref X functionSrcref ctx =
     (if cd_function ctx \<noteq> R_NilValue
      then getFunctionSrcref X (cd_function ctx) (getCallFunctionName X (cd_call ctx))
      else functionSrcref)"

fun decorate ::
  "externals \<Rightarrow> dstate \<Rightarrow> string \<Rightarrow> SEXP \<Rightarrow> SEXP \<Rightarrow> ContextDump list \<Rightarrow> dctx list" where
  "decorate X s fname frame fsrc [] = []"
| "decorate X s fname frame fsrc (ctx # rest) =
     (ctx, fname, frame, effectiveSrcref s fsrc ctx)
       # decorate X s (getCallFunctionName X (cd_call ctx)) (cd_environment ctx)
           (nextFunctionSrcref X fsrc ctx) rest"

definition decorated :: "externals \<Rightarrow> dstate \<Rightarrow> ContextDump list \<Rightarrow> dctx list" where
  "decorated X s contexts = decorate X s [] R_NilValue R_NilValue contexts"

text \<open>
  The previous context is a stack-bottom sentinel and this one has an environment; the
  effective position lies in a physical file; the context has a call expression; the
  frame emitted for a context; and the blanking of the first name.
\<close>

definition isSentinelReset :: "dstate \<Rightarrow> dctx \<Rightarrow> bool" where
  "isSentinelReset s d =
     (case d of (ctx, fname, frame, sref) \<Rightarrow>
        Rf_getAttrib s frame stackBottomAttr \<noteq> R_NilValue \<and> cd_environment ctx \<noteq> R_NilValue)"

definition isPhysicalAt :: "dstate \<Rightarrow> dctx \<Rightarrow> bool" where
  "isPhysicalAt s d =
     (case d of (ctx, fname, frame, sref) \<Rightarrow>
        Rf_getAttrib s (Rf_getAttrib s sref srcfileAttr) isPhysicalFileFlag \<noteq> R_NilValue)"

definition hasCall :: "dctx \<Rightarrow> bool" where
  "hasCall d = (cd_call (fst d) \<noteq> R_NilValue)"

definition frameOf :: "externals \<Rightarrow> dstate \<Rightarrow> dctx \<Rightarrow> RDebuggerStackFrame" where
  "frameOf X s d =
     (case d of (ctx, fname, frame, sref) \<Rightarrow>
        \<lparr>fileId = fst (srcrefToPosition X sref), line = snd (srcrefToPosition X sref),
         environment = (if Rf_getAttrib s frame realEnvAttr \<noteq> R_NilValue
                        then Rf_getAttrib s frame realEnvAttr else frame),
         functionName = fname\<rparr>)"

fun blankFirst :: "RDebuggerStackFrame list \<Rightarrow> RDebuggerStackFrame list" where
  "blankFirst [] = []"
| "blankFirst (f # fs) = f\<lparr>functionName := []\<rparr> # fs"

section \<open>Example inputs\<close>

text \<open>
  A resolver that knows one step target, line 10 of \<open>a.r\<close>; positions and call names for
  three functions \<open>f\<close>, \<open>g\<close> and \<open>h\<close>; a parser that rejects one text.
\<close>

definition X0 :: externals where
  "X0 = \<lparr>getStepSrcref = (\<lambda>f l. if f = ''a.r'' \<and> l = 10 then Obj 100 else R_NilValue),
         getFunctionSrcref = (\<lambda>f n. R_NilValue),
         srcrefToPosition = (\<lambda>r. if r = Obj 100 then (''a.r'', 10) else if r = Obj 101 then (''console'', 1)
            else if r = Obj 102 then (''a.r'', 5) else if r = Obj 103 then (''a.r'', 8) else ([], 0)),
         getCallFunctionName = (\<lambda>c. if c = Obj 11 then ''f'' else if c = Obj 12 then ''g''
            else if c = Obj 13 then ''h'' else []),
         parseCode = (\<lambda>t. if t = ''1/0 >'' then Inl (RError ''parse error'') else Inr (Obj 50)),
         evalq = (\<lambda>e env. Inr (Lgl True)),
         asLogical = (\<lambda>v. Inr v),
         asBool = (\<lambda>v. v = Lgl True),
         getPrintedValue = (\<lambda>v. Inr ''TRUE''),
         defaultInfo = \<lparr>condition = [], evaluateAndLog = [], suspend = True\<rparr>,
         getBlockSrcrefs = (\<lambda>c. c),
         getSrcrefAt = (\<lambda>c i. if i = 1 then Obj 100 else R_NilValue),
         CAR = (\<lambda>c. c),
         Rf_eval = (\<lambda>e rho s. (R_NilValue, s))\<rparr>"

definition s_init :: dstate where
  "s_init = \<lparr>isEnabled = True, breakpointsMuted = False, currentCommand = CONTINUE,
     runToPositionTarget = R_NilValue, breakpoints = Map.empty, infoMem = Map.empty,
     nextInfo = 0, stack = [], lastErrorStackDump = [],
     attrib = (\<lambda>_. R_NilValue), rdebug = (\<lambda>_. False), R_Srcref = Some R_NilValue,
     R_interrupts_pending = False, R_GlobalContext = [], events = []\<rparr>"

definition s_bp :: dstate where
  "s_bp = snd (addBreakpoint X0 ''a.r'' 10 s_init)"

text \<open>
  A live chain for \<open>f() -> g() -> h()\<close> called from synthetic top-level code: the call
  contexts of \<open>h\<close>, \<open>g\<close> and \<open>f\<close> (innermost first) and the top-level context. The
  source reference of a call context is the place of the call; those inside \<open>f\<close>, \<open>g\<close>
  and \<open>h\<close> belong to the physical file \<open>Obj 200\<close>, the one at top level to \<open>Obj 201\<close>,
  which is not physical.
\<close>

definition ctx_f :: RContext where
  "ctx_f = \<lparr>isCallContext = True, getCall = Obj 11, getFunction = Obj 21,
            getSrcref = Some (Obj 101), getEnvironment = Obj 1\<rparr>"

definition ctx_g :: RContext where
  "ctx_g = \<lparr>isCallContext = True, getCall = Obj 12, getFunction = Obj 22,
            getSrcref = Some (Obj 102), getEnvironment = Obj 2\<rparr>"

definition ctx_h :: RContext where
  "ctx_h = \<lparr>isCallContext = True, getCall = Obj 13, getFunction = Obj 23,
            getSrcref = Some (Obj 103), getEnvironment = Obj 3\<rparr>"

definition ctx_top :: RContext where
  "ctx_top = \<lparr>isCallContext = False, getCall = R_NilValue, getFunction = R_NilValue,
              getSrcref = None, getEnvironment = R_NilValue\<rparr>"

definition attrib_fgh :: "SEXP \<times> attr \<Rightarrow> SEXP" where
  "attrib_fgh = (\<lambda>(x, a).
     if a = srcfileAttr \<and> x \<in> {Obj 100, Obj 102, Obj 103} then Obj 200
     else if a = srcfileAttr \<and> x = Obj 101 then Obj 201
     else if a = isPhysicalFileFlag \<and> x = Obj 200 then Lgl True
     else R_NilValue)"

definition s_fgh :: dstate where
  "s_fgh = s_init\<lparr>attrib := attrib_fgh, R_Srcref := Some (Obj 100),
                   R_GlobalContext := [ctx_h, ctx_g, ctx_f, ctx_top]\<rparr>"

text \<open>
  A chain in which the innermost call context evaluates in the environment of the call
  that encloses it (as a call of \<open>eval\<close> with that environment does).
\<close>

definition s_alias :: dstate where
  "s_alias = s_init\<lparr>R_GlobalContext :=
     [ctx_h\<lparr>getEnvironment := Obj 2\<rparr>, ctx_g, ctx_f, ctx_top]\<rparr>"

text \<open>
  The snapshot taken when execution is suspended at the statement \<open>Obj 14\<close> inside \<open>h\<close>,
  and the stack expected for it.
\<close>

definition cd_f :: ContextDump where
  "cd_f = \<lparr>cd_call = Obj 11, cd_function = Obj 21, cd_srcref = Some (Obj 101), cd_environment = Obj 1\<rparr>"

definition cd_g :: ContextDump where
  "cd_g = \<lparr>cd_call = Obj 12, cd_function = Obj 22, cd_srcref = Some (Obj 102), cd_environment = Obj 2\<rparr>"

definition cd_h :: ContextDump where
  "cd_h = \<lparr>cd_call = Obj 13, cd_function = Obj 23, cd_srcref = Some (Obj 103), cd_environment = Obj 3\<rparr>"

definition cd_current :: ContextDump where
  "cd_current = \<lparr>cd_call = Obj 14, cd_function = R_NilValue, cd_srcref = Some (Obj 100),
                 cd_environment = R_NilValue\<rparr>"

definition dump_fgh :: "ContextDump list" where
  "dump_fgh = [cd_f, cd_g, cd_h, cd_current]"

definition stack_fgh :: "RDebuggerStackFrame list" where
  "stack_fgh =
     [\<lparr>fileId = ''a.r'', line = 5, environment = Obj 1, functionName = []\<rparr>,
      \<lparr>fileId = ''a.r'', line = 8, environment = Obj 2, functionName = ''g''\<rparr>,
      \<lparr>fileId = ''a.r'', line = 10, environment = Obj 3, functionName = ''h''\<rparr>]"

text \<open>
  The state in which the stack is built when a step stop suspends execution there: the
  command has been reset to \<open>CONTINUE\<close>.
\<close>

definition s_susp :: dstate where
  "s_susp = setCommand X0 CONTINUE s_fgh"

text \<open>
  A snapshot with a stack-bottom sentinel and no physical file at all.
\<close>

definition s_sentinel :: dstate where
  "s_sentinel = s_init\<lparr>attrib := (\<lambda>(x, a). if x = Obj 1 \<and> a = stackBottomAttr then Lgl True else R_NilValue)\<rparr>"

definition dump_sentinel :: "ContextDump list" where
  "dump_sentinel =
     [\<lparr>cd_call = Obj 11, cd_function = R_NilValue, cd_srcref = Some R_NilValue, cd_environment = Obj 1\<rparr>,
      \<lparr>cd_call = Obj 12, cd_function = R_NilValue, cd_srcref = Some R_NilValue, cd_environment = Obj 2\<rparr>,
      \<lparr>cd_call = Obj 13, cd_function = R_NilValue, cd_srcref = Some R_NilValue, cd_environment = R_NilValue\<rparr>]"

text \<open>
  A failure inside \<open>h\<close>: the handler that captures the snapshot runs in a call context
  of its own, called from line 10 of \<open>h\<close>.
\<close>

definition ctx_handler :: RContext where
  "ctx_handler = \<lparr>isCallContext = True, getCall = Obj 15, getFunction = Obj 25,
                  getSrcref = Some (Obj 100), getEnvironment = Obj 5\<rparr>"

definition s_err :: dstate where
  "s_err = doHandleException
     (s_fgh\<lparr>R_Srcref := Some R_NilValue,
            R_GlobalContext := [ctx_handler, ctx_h, ctx_g, ctx_f, ctx_top]\<rparr>)"

text \<open>
  A run-to-position request for line 10 of \<open>a.r\<close>, a breakpoint that always fires, and
  one whose condition does not parse.
\<close>

definition s_rtp :: dstate where
  "s_rtp = setRunToPositionCommand X0 ''a.r'' 10 s_fgh"

definition bp_always :: BreakpointInfo where
  "bp_always = \<lparr>condition = [], evaluateAndLog = ''x'', suspend = True\<rparr>"

definition bp_failing :: BreakpointInfo where
  "bp_failing = \<lparr>condition = ''1/0 >'', evaluateAndLog = [], suspend = True\<rparr>"

text \<open>
  An evaluator that always throws, and a breakpoint whose step target does not resolve.
\<close>

definition X1 :: externals where
  "X1 = X0\<lparr>evalq := (\<lambda>e env. Inl (RError ''division by zero''))\<rparr>"

definition s_unresolved :: dstate where
  "s_unresolved = snd (addBreakpoint X0 ''b.r'' 1 s_init)"

text \<open>
  Two hosts for a block of several statements. With \<open>X2\<close> the command \<open>PAUSE\<close> is issued
  again while each statement is evaluated. With \<open>X3\<close> the command \<open>STEP_INTO\<close> is issued
  again while each statement is evaluated, and the source reference 0 of a block is
  \<open>Obj 102\<close>, which belongs to the physical file \<open>Obj 200\<close> of the chain above; with \<open>X0\<close>
  and \<open>X2\<close> the source reference 0 of a block is nil, which belongs to no file.
\<close>

definition X2 :: externals where
  "X2 = X0\<lparr>Rf_eval := (\<lambda>e rho s. (e, s\<lparr>currentCommand := PAUSE\<rparr>))\<rparr>"

definition X3 :: externals where
  "X3 = X0\<lparr>getSrcrefAt := (\<lambda>c i. if i = 0 then Obj 102 else if i = 1 then Obj 100 else R_NilValue),
          Rf_eval := (\<lambda>e rho s. (e, s\<lparr>currentCommand := STEP_INTO\<rparr>))\<rparr>"

section \<open>Auxiliary lemmas\<close>

subsection \<open>What each operation leaves alone\<close>

lemma Rf_setAttrib_fields [simp]:
  "isEnabled (Rf_setAttrib x a v s) = isEnabled s"
  "breakpointsMuted (Rf_setAttrib x a v s) = breakpointsMuted s"
  "currentCommand (Rf_setAttrib x a v s) = currentCommand s"
  "runToPositionTarget (Rf_setAttrib x a v s) = runToPositionTarget s"
  "breakpoints (Rf_setAttrib x a v s) = breakpoints s"
  "infoMem (Rf_setAttrib x a v s) = infoMem s"
  "nextInfo (Rf_setAttrib x a v s) = nextInfo s"
  "stack (Rf_setAttrib x a v s) = stack s"
  "lastErrorStackDump (Rf_setAttrib x a v s) = lastErrorStackDump s"
  "rdebug (Rf_setAttrib x a v s) = rdebug s"
  "R_Srcref (Rf_setAttrib x a v s) = R_Srcref s"
  "R_interrupts_pending (Rf_setAttrib x a v s) = R_interrupts_pending s"
  "R_GlobalContext (Rf_setAttrib x a v s) = R_GlobalContext s"
  "events (Rf_setAttrib x a v s) = events s"
  by (simp_all add: Rf_setAttrib_def)

lemma Rf_getAttrib_setAttrib:
  "Rf_getAttrib (Rf_setAttrib x a v s) y b =
     (if y = x \<and> b = a \<and> x \<noteq> R_NilValue then v else Rf_getAttrib s y b)"
  by (simp add: Rf_getAttrib_def Rf_setAttrib_def)

lemma setCommand_loop_fields [simp]:
  "isEnabled (setCommand_loop c f cs s) = isEnabled s"
  "breakpointsMuted (setCommand_loop c f cs s) = breakpointsMuted s"
  "currentCommand (setCommand_loop c f cs s) = currentCommand s"
  "runToPositionTarget (setCommand_loop c f cs s) = runToPositionTarget s"
  "breakpoints (setCommand_loop c f cs s) = breakpoints s"
  "infoMem (setCommand_loop c f cs s) = infoMem s"
  "nextInfo (setCommand_loop c f cs s) = nextInfo s"
  "stack (setCommand_loop c f cs s) = stack s"
  "lastErrorStackDump (setCommand_loop c f cs s) = lastErrorStackDump s"
  "rdebug (setCommand_loop c f cs s) = rdebug s"
  "R_Srcref (setCommand_loop c f cs s) = R_Srcref s"
  "R_interrupts_pending (setCommand_loop c f cs s) = R_interrupts_pending s"
  "R_GlobalContext (setCommand_loop c f cs s) = R_GlobalContext s"
  "events (setCommand_loop c f cs s) = events s"
  by (induction c f cs s rule: setCommand_loop.induct; simp add: Let_def split: DebuggerCommand.splits)+

lemma setCommand_loop_other_attr:
  "b \<noteq> stopHereFlagAttr \<Longrightarrow> Rf_getAttrib (setCommand_loop c f cs s) y b = Rf_getAttrib s y b"
  by (induction c f cs s rule: setCommand_loop.induct)
     (simp_all add: Let_def Rf_getAttrib_setAttrib split: DebuggerCommand.splits)

lemma marker_nil [simp]: "marker s R_NilValue = R_NilValue"
  by (simp add: marker_def Rf_getAttrib_def)

lemma marker_setAttrib [simp]:
  "marker (Rf_setAttrib x stopHereFlagAttr v s) e = (if e = x \<and> x \<noteq> R_NilValue then v else marker s e)"
  by (simp add: marker_def Rf_getAttrib_setAttrib)

lemma envsOf_simps [simp]:
  "envsOf [] = []"
  "envsOf (c # cs) = (if isCallContext c then getEnvironment c # envsOf cs else envsOf cs)"
  by (simp_all add: envsOf_def)

lemma loop_clear:
  "c = CONTINUE \<or> c = STEP_INTO \<Longrightarrow>
   marker (setCommand_loop c f cs s) e = (if e \<in> set (envsOf cs) then R_NilValue else marker s e)"
  by (induction cs arbitrary: s f) (auto simp: Let_def)

lemma loop_over:
  "marker (setCommand_loop STEP_OVER f cs s) e =
     (if e \<in> set (envsOf cs) \<and> e \<noteq> R_NilValue then Lgl True else marker s e)"
  by (induction cs arbitrary: s f) (auto simp: Let_def)

lemma loop_out_rest:
  "marker (setCommand_loop STEP_OUT False cs s) e =
     (if e \<in> set (envsOf cs) \<and> e \<noteq> R_NilValue then Lgl True else marker s e)"
  by (induction cs arbitrary: s) (auto simp: Let_def)

lemma loop_out_first:
  "marker (setCommand_loop STEP_OUT True cs s) e =
     (case envsOf cs of
        [] \<Rightarrow> marker s e
      | e0 # es \<Rightarrow> if e \<in> set es \<and> e \<noteq> R_NilValue then Lgl True
                   else if e = e0 then R_NilValue else marker s e)"
  by (induction cs arbitrary: s) (auto simp: Let_def loop_out_rest)

lemma loop_other:
  "c = FORCE_STEP_INTO \<or> c = PAUSE \<or> c = STOP \<Longrightarrow> setCommand_loop c f cs s = s"
  by (induction cs arbitrary: s f) (auto simp: Let_def)

lemma SET_RDEBUG_fields [simp]:
  "isEnabled (SET_RDEBUG x v s) = isEnabled s"
  "breakpointsMuted (SET_RDEBUG x v s) = breakpointsMuted s"
  "currentCommand (SET_RDEBUG x v s) = currentCommand s"
  "runToPositionTarget (SET_RDEBUG x v s) = runToPositionTarget s"
  "breakpoints (SET_RDEBUG x v s) = breakpoints s"
  "infoMem (SET_RDEBUG x v s) = infoMem s"
  "nextInfo (SET_RDEBUG x v s) = nextInfo s"
  "stack (SET_RDEBUG x v s) = stack s"
  "lastErrorStackDump (SET_RDEBUG x v s) = lastErrorStackDump s"
  "attrib (SET_RDEBUG x v s) = attrib s"
  "R_Srcref (SET_RDEBUG x v s) = R_Srcref s"
  "R_interrupts_pending (SET_RDEBUG x v s) = R_interrupts_pending s"
  "R_GlobalContext (SET_RDEBUG x v s) = R_GlobalContext s"
  "events (SET_RDEBUG x v s) = events s"
  "rdebug (SET_RDEBUG x v s) = (rdebug s)(x := v)"
  by (simp_all add: SET_RDEBUG_def)

lemma logEvent_fields [simp]:
  "isEnabled (logEvent ev s) = isEnabled s"
  "breakpointsMuted (logEvent ev s) = breakpointsMuted s"
  "currentCommand (logEvent ev s) = currentCommand s"
  "runToPositionTarget (logEvent ev s) = runToPositionTarget s"
  "breakpoints (logEvent ev s) = breakpoints s"
  "infoMem (logEvent ev s) = infoMem s"
  "nextInfo (logEvent ev s) = nextInfo s"
  "stack (logEvent ev s) = stack s"
  "lastErrorStackDump (logEvent ev s) = lastErrorStackDump s"
  "attrib (logEvent ev s) = attrib s"
  "rdebug (logEvent ev s) = rdebug s"
  "R_Srcref (logEvent ev s) = R_Srcref s"
  "R_interrupts_pending (logEvent ev s) = R_interrupts_pending s"
  "R_GlobalContext (logEvent ev s) = R_GlobalContext s"
  "events (logEvent ev s) = events s @ [ev]"
  by (simp_all add: logEvent_def)

lemma attrib_setAttrib:
  "attrib (Rf_setAttrib x a v s) = (if x = R_NilValue then attrib s else (attrib s)((x, a) := v))"
  by (simp add: Rf_setAttrib_def)

lemma setBreakpointInfoAttrib_fields [simp]:
  "isEnabled (setBreakpointInfoAttrib x p s) = isEnabled s"
  "breakpointsMuted (setBreakpointInfoAttrib x p s) = breakpointsMuted s"
  "currentCommand (setBreakpointInfoAttrib x p s) = currentCommand s"
  "runToPositionTarget (setBreakpointInfoAttrib x p s) = runToPositionTarget s"
  "breakpoints (setBreakpointInfoAttrib x p s) = breakpoints s"
  "infoMem (setBreakpointInfoAttrib x p s) = infoMem s"
  "nextInfo (setBreakpointInfoAttrib x p s) = nextInfo s"
  "stack (setBreakpointInfoAttrib x p s) = stack s"
  "lastErrorStackDump (setBreakpointInfoAttrib x p s) = lastErrorStackDump s"
  "rdebug (setBreakpointInfoAttrib x p s) = rdebug s"
  "R_Srcref (setBreakpointInfoAttrib x p s) = R_Srcref s"
  "R_interrupts_pending (setBreakpointInfoAttrib x p s) = R_interrupts_pending s"
  "R_GlobalContext (setBreakpointInfoAttrib x p s) = R_GlobalContext s"
  "events (setBreakpointInfoAttrib x p s) = events s"
  "a \<noteq> breakpointInfoAttr \<Longrightarrow> attrib (setBreakpointInfoAttrib x p s) (y, a) = attrib s (y, a)"
  by (simp_all add: setBreakpointInfoAttrib_def attrib_setAttrib split: option.splits)

lemma refreshBreakpoint_fields [simp]:
  "isEnabled (refreshBreakpoint X f l s) = isEnabled s"
  "breakpointsMuted (refreshBreakpoint X f l s) = breakpointsMuted s"
  "currentCommand (refreshBreakpoint X f l s) = currentCommand s"
  "runToPositionTarget (refreshBreakpoint X f l s) = runToPositionTarget s"
  "infoMem (refreshBreakpoint X f l s) = infoMem s"
  "nextInfo (refreshBreakpoint X f l s) = nextInfo s"
  "stack (refreshBreakpoint X f l s) = stack s"
  "lastErrorStackDump (refreshBreakpoint X f l s) = lastErrorStackDump s"
  "R_Srcref (refreshBreakpoint X f l s) = R_Srcref s"
  "R_interrupts_pending (refreshBreakpoint X f l s) = R_interrupts_pending s"
  "R_GlobalContext (refreshBreakpoint X f l s) = R_GlobalContext s"
  "a \<noteq> breakpointInfoAttr \<Longrightarrow> attrib (refreshBreakpoint X f l s) (y, a) = attrib s (y, a)"
  by (simp_all add: refreshBreakpoint_def Let_def split: option.splits)

lemma refreshBreakpoint_events:
  "events (refreshBreakpoint X f l s) =
     events s @ (if hasBreakpoint s f l then [ResolveStep f l] else [])"
  by (simp add: refreshBreakpoint_def hasBreakpoint_def Let_def split: option.splits)

lemma refreshBreakpoint_absent:
  "\<not> hasBreakpoint s f l \<Longrightarrow> refreshBreakpoint X f l s = s"
  by (simp add: refreshBreakpoint_def hasBreakpoint_def split: option.splits)

lemma reset_fields [simp]:
  "isEnabled (resetRunToPositionTarget X s) = isEnabled s"
  "breakpointsMuted (resetRunToPositionTarget X s) = breakpointsMuted s"
  "currentCommand (resetRunToPositionTarget X s) = currentCommand s"
  "runToPositionTarget (resetRunToPositionTarget X s) = R_NilValue"
  "infoMem (resetRunToPositionTarget X s) = infoMem s"
  "nextInfo (resetRunToPositionTarget X s) = nextInfo s"
  "stack (resetRunToPositionTarget X s) = stack s"
  "lastErrorStackDump (resetRunToPositionTarget X s) = lastErrorStackDump s"
  "R_Srcref (resetRunToPositionTarget X s) = R_Srcref s"
  "R_interrupts_pending (resetRunToPositionTarget X s) = R_interrupts_pending s"
  "R_GlobalContext (resetRunToPositionTarget X s) = R_GlobalContext s"
  "a \<noteq> breakpointInfoAttr \<Longrightarrow> attrib (resetRunToPositionTarget X s) (y, a) = attrib s (y, a)"
  by (simp_all add: resetRunToPositionTarget_def Let_def)

lemma reset_events:
  "\<exists>es. events (resetRunToPositionTarget X s) = events s @ es
        \<and> (\<forall>e\<in>set es. \<exists>f l. e = ResolveStep f l)"
  by (simp add: resetRunToPositionTarget_def Let_def refreshBreakpoint_events)

lemma setCommand_fields [simp]:
  "isEnabled (setCommand X c s) = isEnabled s"
  "breakpointsMuted (setCommand X c s) = breakpointsMuted s"
  "currentCommand (setCommand X c s) = c"
  "runToPositionTarget (setCommand X c s) = R_NilValue"
  "infoMem (setCommand X c s) = infoMem s"
  "nextInfo (setCommand X c s) = nextInfo s"
  "stack (setCommand X c s) = stack s"
  "lastErrorStackDump (setCommand X c s) = lastErrorStackDump s"
  "R_Srcref (setCommand X c s) = R_Srcref s"
  "R_interrupts_pending (setCommand X c s) = R_interrupts_pending s"
  "R_GlobalContext (setCommand X c s) = R_GlobalContext s"
  by (simp_all add: setCommand_def Let_def)

lemma setCommand_events:
  "\<exists>es. events (setCommand X c s) = events s @ es
        \<and> (\<forall>e\<in>set es. \<exists>f l. e = ResolveStep f l)"
  using reset_events [of X "s\<lparr>currentCommand := c\<rparr>"]
  by (simp add: setCommand_def Let_def)

lemma count_resolves:
  "\<forall>e\<in>set es. \<exists>f l. e = ResolveStep f l \<Longrightarrow>
     count_list es DebugPrompt = 0 \<and> count_list es UserInterrupt = 0
     \<and> (\<forall>t v. count_list es (Evaluated t v) = 0)"
  by (induction es) auto

lemma setCommand_promptCount [simp]:
  "promptCount (setCommand X c s) = promptCount s"
  using setCommand_events [of X c s] count_resolves
  by (auto simp: promptCount_def)

lemma marker_frame:
  "marker (resetRunToPositionTarget X s) e = marker s e"
  by (simp add: marker_def Rf_getAttrib_def)

subsection \<open>The firing logic, case by case\<close>

lemma checkCondition_snd:
  "snd (checkCondition X c env s) = (if c = [] then s else logEvent (Evaluated c env) s)"
  by (simp add: checkCondition_def Let_def logEvent_def split: sum.splits)

lemma checkCondition_fst:
  "fst (checkCondition X c env s) =
     (if c = [] then Inr True
      else case checkCondition_try X c env of Inr b \<Rightarrow> Inr b | Inl e \<Rightarrow> Inr False)"
  by (simp add: checkCondition_def Let_def split: sum.splits)

lemma checkCondition_never_throws:
  "\<exists>b. fst (checkCondition X c env s) = Inr b"
  by (auto simp: checkCondition_fst split: sum.splits)

lemma evaluateAndLog_fun_eq:
  "evaluateAndLog_fun X e env s =
     (if e = [] then s
      else s\<lparr>events := events s @ [Evaluated e env,
             Message (case evaluateAndLog_try X e env of Inr txt \<Rightarrow> txt | Inl (RError what) \<Rightarrow> what)]\<rparr>)"
  by (simp add: evaluateAndLog_fun_def Let_def logEvent_def split: sum.splits RError.splits)

lemma promptCount_simps [simp]:
  "promptCount (logEvent ev s) = promptCount s + (if ev = DebugPrompt then 1 else 0)"
  "promptCount (s\<lparr>stack := st\<rparr>) = promptCount s"
  "promptCount (s\<lparr>R_interrupts_pending := b\<rparr>) = promptCount s"
  "promptCount (s\<lparr>R_Srcref := r\<rparr>) = promptCount s"
  by (simp_all add: promptCount_def)

lemma promptCount_checkCondition [simp]:
  "promptCount (snd (checkCondition X c env s)) = promptCount s"
  by (simp add: checkCondition_snd)

lemma promptCount_evaluateAndLog [simp]:
  "promptCount (evaluateAndLog_fun X e env s) = promptCount s"
  by (simp add: evaluateAndLog_fun_eq promptCount_def)

lemma doBreakpoint_running:
  assumes "isEnabled s" "\<not> R_interrupts_pending s" "currentCommand s \<noteq> STOP"
  shows "doBreakpoint X call bp step env s =
     (let s1 = afterBreakpointEval X bp env s in
      if step \<or> rtpHit s \<or> bpFires X bp env s then
        (let s2 = setCommand X CONTINUE s1
         in debugPromptHandler (s2\<lparr>stack := buildStack X s2 (getContextDump call s2)\<rparr>))
      else s1)"
proof (cases bp)
  case None
  then show ?thesis using assms
    by (simp add: doBreakpoint_def afterBreakpointEval_def bpFires_def rtpHit_def Let_def)
next
  case (Some b)
  obtain r sa where cc: "checkCondition X (condition b) env s = (r, sa)"
    by (cases "checkCondition X (condition b) env s")
  obtain v where r: "r = Inr v"
    using checkCondition_never_throws [of X "condition b" env s] cc by auto
  show ?thesis using assms Some cc r
    by (cases v) (auto simp: doBreakpoint_def afterBreakpointEval_def bpFires_def rtpHit_def Let_def)
qed

lemma afterBreakpointEval_fields [simp]:
  "isEnabled (afterBreakpointEval X bp env s) = isEnabled s"
  "breakpointsMuted (afterBreakpointEval X bp env s) = breakpointsMuted s"
  "currentCommand (afterBreakpointEval X bp env s) = currentCommand s"
  "runToPositionTarget (afterBreakpointEval X bp env s) = runToPositionTarget s"
  "breakpoints (afterBreakpointEval X bp env s) = breakpoints s"
  "infoMem (afterBreakpointEval X bp env s) = infoMem s"
  "attrib (afterBreakpointEval X bp env s) = attrib s"
  "rdebug (afterBreakpointEval X bp env s) = rdebug s"
  "R_Srcref (afterBreakpointEval X bp env s) = R_Srcref s"
  "R_interrupts_pending (afterBreakpointEval X bp env s) = R_interrupts_pending s"
  "R_GlobalContext (afterBreakpointEval X bp env s) = R_GlobalContext s"
  "promptCount (afterBreakpointEval X bp env s) = promptCount s"
  by (simp_all add: afterBreakpointEval_def checkCondition_snd evaluateAndLog_fun_eq promptCount_def
        split: option.splits)

lemma doBreakpoint_promptCount:
  assumes "isEnabled s" "\<not> R_interrupts_pending s" "currentCommand s \<noteq> STOP"
  shows "promptCount (doBreakpoint X call bp step env s) =
           promptCount s + (if step \<or> rtpHit s \<or> bpFires X bp env s then 1 else 0)"
  by (simp add: doBreakpoint_running [OF assms] Let_def debugPromptHandler_def)

lemma doBreakpoint_suspended_target:
  assumes "isEnabled s" "\<not> R_interrupts_pending s" "currentCommand s \<noteq> STOP"
    and "step \<or> rtpHit s \<or> bpFires X bp env s"
  shows "runToPositionTarget (doBreakpoint X call bp step env s) = R_NilValue
       \<and> currentCommand (doBreakpoint X call bp step env s) = CONTINUE"
  using assms(4) by (simp add: doBreakpoint_running [OF assms(1-3)] Let_def debugPromptHandler_def)

lemma doBreakpoint_skipped:
  "\<not> isEnabled s \<or> R_interrupts_pending s \<Longrightarrow> doBreakpoint X call bp step env s = s"
  by (auto simp: doBreakpoint_def)

lemma doBreakpoint_STOP:
  assumes "isEnabled s" "\<not> R_interrupts_pending s" "currentCommand s = STOP"
  shows "doBreakpoint X call bp step env s =
           logEvent UserInterrupt ((setCommand X CONTINUE s)\<lparr>R_interrupts_pending := True\<rparr>)"
  using assms by (simp add: doBreakpoint_def R_CheckUserInterrupt_def)

lemma s_bp_simps:
  "breakpoints s_bp ''a.r'' = Some (Map.empty(10 \<mapsto> \<lparr>srcref = Obj 100, info = 0\<rparr>))"
  "events s_bp = [ResolveStep ''a.r'' 10]"
  "RDEBUG s_bp (Obj 100)"
  "getBreakpointInfoAttrib s_bp (Obj 100) = Some 0"
  "infoMem s_bp 0 = Some \<lparr>condition = [], evaluateAndLog = [], suspend = True\<rparr>"
  "fst (addBreakpoint X0 ''a.r'' 10 s_init) = 0"
  by (simp_all add: s_bp_def addBreakpoint_def X0_def s_init_def Let_def logEvent_def
       setBreakpointInfoAttrib_def SET_RDEBUG_def Rf_setAttrib_def RDEBUG_def
       getBreakpointInfoAttrib_def Rf_getAttrib_def)

lemma callEnvs_fgh: "callEnvs s_fgh = [Obj 3, Obj 2, Obj 1]"
  by (simp add: callEnvs_def s_fgh_def ctx_f_def ctx_g_def ctx_h_def ctx_top_def)

lemma evalCount_simps [simp]:
  "evalCount (logEvent ev s) = evalCount s + (case ev of Evaluated t v \<Rightarrow> 1 | _ \<Rightarrow> 0)"
  "evalCount (s\<lparr>stack := st\<rparr>) = evalCount s"
  "evalCount (s\<lparr>R_interrupts_pending := b\<rparr>) = evalCount s"
  "evalCount (s\<lparr>R_Srcref := r\<rparr>) = evalCount s"
  by (simp_all add: evalCount_def split: event.splits)

lemma interruptCount_simps [simp]:
  "interruptCount (logEvent ev s) = interruptCount s + (if ev = UserInterrupt then 1 else 0)"
  "interruptCount (s\<lparr>stack := st\<rparr>) = interruptCount s"
  "interruptCount (s\<lparr>R_interrupts_pending := b\<rparr>) = interruptCount s"
  "interruptCount (s\<lparr>R_Srcref := r\<rparr>) = interruptCount s"
  by (simp_all add: interruptCount_def)

lemma filter_resolves:
  "\<forall>e\<in>set es. \<exists>f l. e = ResolveStep f l \<Longrightarrow>
     filter (\<lambda>e. case e of Evaluated t v \<Rightarrow> True | _ \<Rightarrow> False) es = []"
  by (induction es) auto

lemma setCommand_counts [simp]:
  "evalCount (setCommand X c s) = evalCount s"
  "interruptCount (setCommand X c s) = interruptCount s"
  using setCommand_events [of X c s] count_resolves filter_resolves
  by (auto simp: evalCount_def interruptCount_def)

lemma evalCount_doBreakpoint_None:
  "evalCount (doBreakpoint X call None step env s) = evalCount s"
proof (cases "isEnabled s \<and> \<not> R_interrupts_pending s")
  case False
  then show ?thesis by (simp add: doBreakpoint_skipped)
next
  case en: True
  show ?thesis
  proof (cases "currentCommand s = STOP")
    case True
    with en show ?thesis by (simp add: doBreakpoint_STOP)
  next
    case False
    with en show ?thesis
      by (simp add: doBreakpoint_running afterBreakpointEval_def Let_def debugPromptHandler_def)
  qed
qed

lemma doBreakpoint_muted:
  "breakpointsMuted s \<Longrightarrow> doBreakpoint X call bp step env s = doBreakpoint X call None step env s"
  by (cases bp) (simp_all add: doBreakpoint_def)

lemma reset_promptCount [simp]:
  "promptCount (resetRunToPositionTarget X s) = promptCount s"
  using reset_events [of X s] count_resolves by (auto simp: promptCount_def)

lemma promptCount_updates [simp]:
  "promptCount (s\<lparr>currentCommand := c\<rparr>) = promptCount s"
  "promptCount (s\<lparr>runToPositionTarget := x\<rparr>) = promptCount s"
  "promptCount (s\<lparr>breakpointsMuted := m\<rparr>) = promptCount s"
  "promptCount (s\<lparr>isEnabled := en\<rparr>) = promptCount s"
  "promptCount (SET_RDEBUG y v s) = promptCount s"
  by (simp_all add: promptCount_def)

lemma setRunToPositionCommand_fields:
  assumes "getStepSrcref X file ln = t" "t \<noteq> R_NilValue"
  shows "isEnabled (setRunToPositionCommand X file ln s) = isEnabled s"
    "R_interrupts_pending (setRunToPositionCommand X file ln s) = R_interrupts_pending s"
    "currentCommand (setRunToPositionCommand X file ln s) = CONTINUE"
    "runToPositionTarget (setRunToPositionCommand X file ln s) = t"
    "RDEBUG (setRunToPositionCommand X file ln s) t"
    "promptCount (setRunToPositionCommand X file ln s) = promptCount s"
  using assms
  by (simp_all add: setRunToPositionCommand_def Let_def RDEBUG_def)

lemma setCommand_disarms:
  assumes "runToPositionTarget s = t" "t \<noteq> R_NilValue"
    "\<not> hasBreakpoint s (fst (srcrefToPosition X t)) (snd (srcrefToPosition X t))"
  shows "\<not> RDEBUG (setCommand X c s) t"
proof -
  let ?s1 = "SET_RDEBUG t False (s\<lparr>currentCommand := c\<rparr>)"
  have "\<not> hasBreakpoint ?s1 (fst (srcrefToPosition X t)) (snd (srcrefToPosition X t))"
    using assms(3) by (simp add: hasBreakpoint_def)
  then have "refreshBreakpoint X (fst (srcrefToPosition X t)) (snd (srcrefToPosition X t)) ?s1 = ?s1"
    by (rule refreshBreakpoint_absent)
  then show ?thesis
    using assms(1,2)
    by (simp add: setCommand_def resetRunToPositionTarget_def Let_def RDEBUG_def)
qed

lemma doBreakpoint_no_target:
  assumes "runToPositionTarget s = R_NilValue"
  shows "promptCount (doBreakpoint X call None False env s) = promptCount s"
proof (cases "isEnabled s \<and> \<not> R_interrupts_pending s")
  case False
  then show ?thesis by (simp add: doBreakpoint_skipped)
next
  case en: True
  show ?thesis
  proof (cases "currentCommand s = STOP")
    case True
    with en show ?thesis by (simp add: doBreakpoint_STOP)
  next
    case False
    with en assms show ?thesis
      by (cases "R_Srcref s") (simp_all add: doBreakpoint_promptCount rtpHit_def bpFires_def)
  qed
qed

lemma doBreakpoint_clears_target:
  assumes "promptCount (doBreakpoint X call bp step env s) \<noteq> promptCount s"
  shows "runToPositionTarget (doBreakpoint X call bp step env s) = R_NilValue"
proof (cases "isEnabled s \<and> \<not> R_interrupts_pending s")
  case False
  with assms show ?thesis by (simp add: doBreakpoint_skipped)
next
  case en: True
  show ?thesis
  proof (cases "currentCommand s = STOP")
    case True
    with en show ?thesis by (simp add: doBreakpoint_STOP)
  next
    case False
    with en assms have "step \<or> rtpHit s \<or> bpFires X bp env s"
      by (simp add: doBreakpoint_promptCount split: if_splits)
    with en False show ?thesis by (simp add: doBreakpoint_suspended_target)
  qed
qed

lemma doBreakpoint_disarms:
  assumes "promptCount (doBreakpoint X call bp step env s) \<noteq> promptCount s"
    and "runToPositionTarget s = t" and "t \<noteq> R_NilValue"
    and "\<not> hasBreakpoint s (fst (srcrefToPosition X t)) (snd (srcrefToPosition X t))"
  shows "\<not> RDEBUG (doBreakpoint X call bp step env s) t"
proof (cases "isEnabled s \<and> \<not> R_interrupts_pending s")
  case False
  with assms(1) show ?thesis by (simp add: doBreakpoint_skipped)
next
  case en: True
  show ?thesis
  proof (cases "currentCommand s = STOP")
    case True
    with en assms(1) show ?thesis by (simp add: doBreakpoint_STOP)
  next
    case False
    with en assms(1) have dec: "step \<or> rtpHit s \<or> bpFires X bp env s"
      by (simp add: doBreakpoint_promptCount split: if_splits)
    let ?sa = "afterBreakpointEval X bp env s"
    have tgt: "runToPositionTarget ?sa = t" using assms(2) by simp
    have nb: "\<not> hasBreakpoint ?sa (fst (srcrefToPosition X t)) (snd (srcrefToPosition X t))"
      using assms(4) by (simp add: hasBreakpoint_def)
    have "\<not> RDEBUG (setCommand X CONTINUE ?sa) t"
      by (rule setCommand_disarms [OF tgt assms(3) nb])
    with en False dec show ?thesis
      by (simp add: doBreakpoint_running Let_def debugPromptHandler_def RDEBUG_def)
  qed
qed

subsection \<open>The loop of the stack builder\<close>

lemma loop_Cons:
  "buildStack_loop X s wsb fn fr fs stk (c # cs) =
     (let d = (c, fn, fr, effectiveSrcref s fs c);
          fn2 = getCallFunctionName X (cd_call c);
          fs2 = nextFunctionSrcref X fs c
      in if isSentinelReset s d then buildStack_loop X s True fn2 (cd_environment c) fs2 [] cs
         else if hasCall d \<and> (wsb \<or> isPhysicalAt s d) then
           buildStack_loop X s True fn2 (cd_environment c) fs2
             (stk @ [(frameOf X s d)\<lparr>functionName := (if stk = [] then [] else fn)\<rparr>]) cs
         else buildStack_loop X s (wsb \<or> isPhysicalAt s d) fn2 (cd_environment c) fs2 stk cs)"
  by (cases "cd_srcref c")
     (auto simp: Let_def effectiveSrcref_def nextFunctionSrcref_def isSentinelReset_def
        isPhysicalAt_def hasCall_def frameOf_def)

lemma loop_latched:
  "\<forall>d\<in>set (decorate X s fn fr fs cs). \<not> isSentinelReset s d \<Longrightarrow>
   buildStack_loop X s True fn fr fs stk cs =
     (if stk = [] then blankFirst (map (frameOf X s) (filter hasCall (decorate X s fn fr fs cs)))
      else stk @ map (frameOf X s) (filter hasCall (decorate X s fn fr fs cs)))"
proof (induction cs arbitrary: fn fr fs stk)
  case Nil
  then show ?case by simp
next
  case (Cons c cs)
  have fn: "frameOf X s (c, fn, fr, effectiveSrcref s fs c)\<lparr>functionName := fn\<rparr>
          = frameOf X s (c, fn, fr, effectiveSrcref s fs c)"
    by (simp add: frameOf_def)
  from Cons.prems show ?case
    by (simp add: loop_Cons Let_def Cons.IH fn del: buildStack_loop.simps)
qed

lemma loop_physical:
  "isPhysicalAt s (c, fn, fr, effectiveSrcref s fs c) \<Longrightarrow>
   buildStack_loop X s False fn fr fs stk (c # cs) = buildStack_loop X s True fn fr fs stk (c # cs)"
  by (simp add: loop_Cons Let_def del: buildStack_loop.simps)

lemma loop_unlatched:
  "\<forall>d\<in>set (decorate X s fn fr fs cs). \<not> isSentinelReset s d \<Longrightarrow>
   buildStack_loop X s False fn fr fs [] cs =
     blankFirst (map (frameOf X s) (filter hasCall
        (dropWhile (\<lambda>d. \<not> isPhysicalAt s d) (decorate X s fn fr fs cs))))"
proof (induction cs arbitrary: fn fr fs)
  case Nil
  then show ?case by simp
next
  case (Cons c cs)
  show ?case
  proof (cases "isPhysicalAt s (c, fn, fr, effectiveSrcref s fs c)")
    case True
    then show ?thesis
      using loop_latched [OF Cons.prems, of "[]"]
      by (simp add: loop_physical del: buildStack_loop.simps)
  next
    case False
    with Cons.prems show ?thesis
      by (simp add: loop_Cons Let_def Cons.IH del: buildStack_loop.simps)
  qed
qed

lemma loop_sentinel:
  "decorate X s fn fr fs cs = pre @ d # post \<Longrightarrow> isSentinelReset s d \<Longrightarrow>
   \<forall>x\<in>set post. \<not> isSentinelReset s x \<Longrightarrow>
   buildStack_loop X s wsb fn fr fs stk cs =
     blankFirst (map (frameOf X s) (filter hasCall post))"
proof (induction pre arbitrary: cs wsb fn fr fs stk)
  case Nil
  then obtain c cs' where cs: "cs = c # cs'" by (cases cs) auto
  with Nil have d: "d = (c, fn, fr, effectiveSrcref s fs c)"
    and post: "post = decorate X s (getCallFunctionName X (cd_call c)) (cd_environment c)
                 (nextFunctionSrcref X fs c) cs'"
    by simp_all
  from Nil(2) Nil(3) show ?case
    unfolding cs post d
    by (simp add: loop_Cons Let_def loop_latched del: buildStack_loop.simps)
next
  case (Cons p pre)
  then obtain c cs' where cs: "cs = c # cs'" by (cases cs) auto
  with Cons.prems(1) have p: "p = (c, fn, fr, effectiveSrcref s fs c)"
    and rest: "decorate X s (getCallFunctionName X (cd_call c)) (cd_environment c)
                 (nextFunctionSrcref X fs c) cs' = pre @ d # post"
    by simp_all
  note ih = Cons.IH [OF rest Cons.prems(2) Cons.prems(3)]
  show ?case
    unfolding cs
    by (simp add: loop_Cons Let_def ih del: buildStack_loop.simps)
qed

lemma loop_first_name:
  "stk = [] \<or> functionName (hd stk) = [] \<Longrightarrow>
   buildStack_loop X s wsb fn fr fs stk cs = [] \<or>
   functionName (hd (buildStack_loop X s wsb fn fr fs stk cs)) = []"
proof (induction cs arbitrary: wsb fn fr fs stk)
  case Nil
  then show ?case by simp
next
  case (Cons c cs)
  have a: "\<And>w f e q. buildStack_loop X s w f e q [] cs = [] \<or>
        functionName (hd (buildStack_loop X s w f e q [] cs)) = []"
    by (rule Cons.IH) simp
  have b: "\<And>w f e q x. buildStack_loop X s w f e q (stk @ [x\<lparr>functionName := (if stk = [] then [] else fn)\<rparr>]) cs = [] \<or>
        functionName (hd (buildStack_loop X s w f e q (stk @ [x\<lparr>functionName := (if stk = [] then [] else fn)\<rparr>]) cs)) = []"
    using Cons.prems by (intro Cons.IH) (cases stk; simp)
  have c: "\<And>w f e q. buildStack_loop X s w f e q stk cs = [] \<or>
        functionName (hd (buildStack_loop X s w f e q stk cs)) = []"
    using Cons.prems by (rule Cons.IH)
  show ?case
    using a b c by (simp add: loop_Cons Let_def del: buildStack_loop.simps)
qed

lemma decorate_contexts: "map fst (decorate X s fn fr fs cs) = cs"
  by (induction cs arbitrary: fn fr fs) simp_all

lemma decorate_length [simp]: "length (decorate X s fn fr fs cs) = length cs"
  by (induction cs arbitrary: fn fr fs) simp_all

lemma decorate_previous:
  "Suc i < length cs \<Longrightarrow>
   fst (snd (decorate X s fn fr fs cs ! Suc i)) = getCallFunctionName X (cd_call (cs ! i))
   \<and> fst (snd (snd (decorate X s fn fr fs cs ! Suc i))) = cd_environment (cs ! i)"
proof (induction cs arbitrary: fn fr fs i)
  case Nil
  then show ?case by simp
next
  case (Cons c cs)
  show ?case
  proof (cases i)
    case 0
    with Cons.prems show ?thesis by (cases cs) simp_all
  next
    case (Suc j)
    with Cons.prems have "Suc j < length cs" by simp
    from Cons.IH [OF this] Suc show ?thesis by simp
  qed
qed

subsection \<open>The example inputs, evaluated\<close>

lemma X0_simps:
  "getStepSrcref X0 = (\<lambda>f l. if f = ''a.r'' \<and> l = 10 then Obj 100 else R_NilValue)"
  "getFunctionSrcref X0 = (\<lambda>f n. R_NilValue)"
  "srcrefToPosition X0 = (\<lambda>r. if r = Obj 100 then (''a.r'', 10) else if r = Obj 101 then (''console'', 1)
            else if r = Obj 102 then (''a.r'', 5) else if r = Obj 103 then (''a.r'', 8) else ([], 0))"
  "getCallFunctionName X0 = (\<lambda>c. if c = Obj 11 then ''f'' else if c = Obj 12 then ''g''
            else if c = Obj 13 then ''h'' else [])"
  "parseCode X0 = (\<lambda>t. if t = ''1/0 >'' then Inl (RError ''parse error'') else Inr (Obj 50))"
  "getBlockSrcrefs X0 = (\<lambda>c. c)"
  "getSrcrefAt X0 = (\<lambda>c i. if i = 1 then Obj 100 else R_NilValue)"
  "Rf_eval X0 = (\<lambda>e rho s. (R_NilValue, s))"
  by (simp_all add: X0_def)

lemma derefInfo_R_Srcref [simp]:
  "derefInfo (s\<lparr>R_Srcref := r\<rparr>) p = derefInfo s p"
  "getBreakpointInfoAttrib (s\<lparr>R_Srcref := r\<rparr>) x = getBreakpointInfoAttrib s x"
  by (cases p) (simp_all add: derefInfo_def getBreakpointInfoAttrib_def Rf_getAttrib_def)

lemma getContextDump_fgh: "getContextDump (Obj 14) s_fgh = dump_fgh"
  by (simp add: getContextDump_def s_fgh_def dump_fgh_def cd_f_def cd_g_def cd_h_def cd_current_def
        ctx_f_def ctx_g_def ctx_h_def ctx_top_def Let_def)

lemma attrib_fgh_simps:
  "Rf_getAttrib s_fgh x a = (if x = R_NilValue then R_NilValue else attrib_fgh (x, a))"
  by (simp add: Rf_getAttrib_def s_fgh_def)

lemma getAttrib_setCommand:
  "a \<noteq> stopHereFlagAttr \<Longrightarrow> a \<noteq> breakpointInfoAttr \<Longrightarrow>
   Rf_getAttrib (setCommand X c s) y a = Rf_getAttrib s y a"
proof -
  assume a: "a \<noteq> stopHereFlagAttr" "a \<noteq> breakpointInfoAttr"
  let ?s3 = "(resetRunToPositionTarget X (s\<lparr>currentCommand := c\<rparr>))\<lparr>runToPositionTarget := R_NilValue\<rparr>"
  have "Rf_getAttrib (setCommand X c s) y a = Rf_getAttrib ?s3 y a"
    using a(1) by (simp add: setCommand_def Let_def setCommand_loop_other_attr)
  also have "\<dots> = Rf_getAttrib s y a"
    using a(2) by (simp add: Rf_getAttrib_def)
  finally show ?thesis .
qed

lemma s_fgh_running:
  "isEnabled s_fgh" "\<not> R_interrupts_pending s_fgh" "currentCommand s_fgh \<noteq> STOP"
  by (simp_all add: s_fgh_def s_init_def)

lemma getStack_suspended:
  "getStack (doBreakpoint X0 (Obj 14) None True (Obj 3) s_fgh)
     = buildStack X0 s_susp (getContextDump (Obj 14) s_susp)"
  by (simp add: doBreakpoint_running [OF s_fgh_running] Let_def debugPromptHandler_def
        getStack_def logEvent_def s_susp_def afterBreakpointEval_def)

lemma getContextDump_susp: "getContextDump (Obj 14) s_susp = dump_fgh"
  using getContextDump_fgh by (simp add: getContextDump_def s_susp_def)

lemma attrib_susp:
  "a \<noteq> stopHereFlagAttr \<Longrightarrow> a \<noteq> breakpointInfoAttr \<Longrightarrow>
   Rf_getAttrib s_susp x a = (if x = R_NilValue then R_NilValue else attrib_fgh (x, a))"
  by (simp add: s_susp_def getAttrib_setCommand attrib_fgh_simps)

lemma decorated_susp:
  "decorated X0 s_susp dump_fgh =
     [(cd_f, [], R_NilValue, Obj 101), (cd_g, ''f'', Obj 1, Obj 102),
      (cd_h, ''g'', Obj 2, Obj 103), (cd_current, ''h'', Obj 3, Obj 100)]"
  by (simp add: decorated_def dump_fgh_def cd_f_def cd_g_def cd_h_def cd_current_def
        effectiveSrcref_def nextFunctionSrcref_def X0_simps)

lemma buildStack_s_err: "buildStack X0 s_err (lastErrorStackDump s_err) = stack_fgh"
  by (simp add: s_err_def doHandleException_def getContextDump_def s_fgh_def s_init_def
        ctx_handler_def ctx_f_def ctx_g_def ctx_h_def ctx_top_def buildStack_def Let_def
        Rf_getAttrib_def attrib_fgh_def X0_def stack_fgh_def)

lemma decorated_sentinel:
  "decorated X0 s_sentinel dump_sentinel =
     [(dump_sentinel ! 0, [], R_NilValue, R_NilValue), (dump_sentinel ! 1, ''f'', Obj 1, R_NilValue),
      (dump_sentinel ! 2, ''g'', Obj 2, R_NilValue)]"
  by (simp add: decorated_def dump_sentinel_def effectiveSrcref_def nextFunctionSrcref_def X0_simps
        s_sentinel_def Rf_getAttrib_def)

lemma s_unresolved_simps:
  "breakpoints s_unresolved ''b.r'' = Some (Map.empty(1 \<mapsto> \<lparr>srcref = R_NilValue, info = 0\<rparr>))"
  "\<not> RDEBUG s_unresolved R_NilValue"
  by (simp_all add: s_unresolved_def addBreakpoint_def X0_def s_init_def Let_def logEvent_def
        RDEBUG_def)

lemma doBreakpoint_keeps_running:
  assumes "isEnabled s" "\<not> R_interrupts_pending s" "currentCommand s \<noteq> STOP"
  shows "isEnabled (doBreakpoint X call bp step env s)"
    "\<not> R_interrupts_pending (doBreakpoint X call bp step env s)"
  using assms
  by (simp_all add: doBreakpoint_running [OF assms] Let_def debugPromptHandler_def logEvent_def)

lemma X2_simps:
  "getBlockSrcrefs X2 = (\<lambda>c. c)"
  "getSrcrefAt X2 = (\<lambda>c i. if i = 1 then Obj 100 else R_NilValue)"
  "Rf_eval X2 = (\<lambda>e rho s. (e, s\<lparr>currentCommand := PAUSE\<rparr>))"
  by (simp_all add: X2_def X0_def)

lemma X3_simps:
  "getBlockSrcrefs X3 = (\<lambda>c. c)"
  "getSrcrefAt X3 = (\<lambda>c i. if i = 0 then Obj 102 else if i = 1 then Obj 100 else R_NilValue)"
  "Rf_eval X3 = (\<lambda>e rho s. (e, s\<lparr>currentCommand := STEP_INTO\<rparr>))"
  by (simp_all add: X3_def X0_def)

lemma s_fgh_fields:
  "isEnabled s_fgh" "\<not> R_interrupts_pending s_fgh" "promptCount s_fgh = 0"
  "rdebug s_fgh = (\<lambda>_. False)" "attrib s_fgh = attrib_fgh"
  by (simp_all add: s_fgh_def s_init_def promptCount_def)

subsection \<open>The interceptor, statement by statement\<close>

lemma doBegin_hook_R_Srcref:
  "doBegin_hook X p fe rho srcrefs i arg (s\<lparr>R_Srcref := x\<rparr>) = doBegin_hook X p fe rho srcrefs i arg s"
  by (simp add: doBegin_hook_def)

lemma doBegin_loop_snoc:
  "doBegin_loop X p fe rho srcrefs i (xs @ [a]) r =
     Rf_eval X a rho (doBegin_hook X p fe rho srcrefs (i + length xs) a
                        (snd (doBegin_loop X p fe rho srcrefs i xs r)))"
  by (induction xs arbitrary: i r) (simp_all add: Let_def)

lemma doBegin_step:
  assumes "k < length args"
  shows "doBegin X call (take (Suc k) args) rho s =
     (let fe = (case getCurrentCallContext s of None \<Rightarrow> R_NilValue | Some ctx \<Rightarrow> getEnvironment ctx);
          sk = snd (doBegin X call (take k args) rho s);
          res = Rf_eval X (args ! k) rho
                  (doBegin_hook X (doBegin_isPhysical X s call) fe rho (getBlockSrcrefs X call)
                     (Suc k) (args ! k) sk)
      in (fst res, (snd res)\<lparr>R_Srcref := Some R_NilValue\<rparr>))"
proof -
  have t: "take (Suc k) args = take k args @ [args ! k]"
    using assms by (rule take_Suc_conv_app_nth)
  have l: "length (take k args) = k" using assms by simp
  have ph: "\<And>x. doBegin_isPhysical X (s\<lparr>R_Srcref := x\<rparr>) call = doBegin_isPhysical X s call"
    by (simp add: doBegin_isPhysical_def Rf_getAttrib_def)
  show ?thesis
  proof (cases "take k args = []")
    case True
    with assms have k0: "k = 0" by auto
    show ?thesis
      unfolding t unfolding k0
      by (simp add: doBegin_def Let_def ph doBegin_hook_R_Srcref)
  next
    case False
    have m: "min (length args) k = k" using assms by simp
    from False show ?thesis
      unfolding t
      by (simp add: doBegin_def Let_def ph doBegin_loop_snoc m doBegin_hook_R_Srcref
            del: doBegin_loop.simps)
  qed
qed

section \<open>Claims\<close>

subsection \<open>Stack builder\<close>

text \<open>
  C1, as amended. For every snapshot the stack is built from the decorated contexts in
  their order, outermost first. When no context follows a stack-bottom sentinel, the
  stack holds exactly the contexts with a call expression from the first one on whose
  effective position lies in a physical file. When some context follows a sentinel, the
  stack holds exactly the contexts with a call expression after the last such context,
  physical or not. The name of every frame is the name used to call the previous context
  of the snapshot, except that the name of the first frame of the stack is always empty.
\<close>

theorem buildStack_characterised:
  "let ds = decorated X s contexts in
     map fst ds = contexts
   \<and> (\<forall>i. Suc i < length contexts \<longrightarrow>
         fst (snd (ds ! Suc i)) = getCallFunctionName X (cd_call (contexts ! i)))
   \<and> ((\<forall>d\<in>set ds. \<not> isSentinelReset s d) \<longrightarrow>
        buildStack X s contexts =
          blankFirst (map (frameOf X s) (filter hasCall (dropWhile (\<lambda>d. \<not> isPhysicalAt s d) ds))))
   \<and> (\<forall>pre d post. ds = pre @ d # post \<and> isSentinelReset s d
          \<and> (\<forall>x\<in>set post. \<not> isSentinelReset s x) \<longrightarrow>
        buildStack X s contexts = blankFirst (map (frameOf X s) (filter hasCall post)))
   \<and> (buildStack X s contexts = [] \<or> functionName (hd (buildStack X s contexts)) = [])"
proof -
  let ?ds = "decorated X s contexts"
  have a: "map fst ?ds = contexts" by (simp add: decorated_def decorate_contexts)
  have b: "\<forall>i. Suc i < length contexts \<longrightarrow>
         fst (snd (?ds ! Suc i)) = getCallFunctionName X (cd_call (contexts ! i))"
    by (simp add: decorated_def decorate_previous)
  have c: "(\<forall>d\<in>set ?ds. \<not> isSentinelReset s d) \<longrightarrow>
        buildStack X s contexts =
          blankFirst (map (frameOf X s) (filter hasCall (dropWhile (\<lambda>d. \<not> isPhysicalAt s d) ?ds)))"
  proof
    assume h: "\<forall>d\<in>set ?ds. \<not> isSentinelReset s d"
    show "buildStack X s contexts =
          blankFirst (map (frameOf X s) (filter hasCall (dropWhile (\<lambda>d. \<not> isPhysicalAt s d) ?ds)))"
    proof (cases "contexts = []")
      case True
      then show ?thesis by (simp add: buildStack_def decorated_def)
    next
      case False
      then show ?thesis
        using loop_unlatched [OF h [unfolded decorated_def]]
        by (simp add: buildStack_def decorated_def)
    qed
  qed
  have d: "\<forall>pre d post. ?ds = pre @ d # post \<and> isSentinelReset s d
          \<and> (\<forall>x\<in>set post. \<not> isSentinelReset s x) \<longrightarrow>
        buildStack X s contexts = blankFirst (map (frameOf X s) (filter hasCall post))"
  proof (intro allI impI, elim conjE)
    fix pre d post
    assume h: "?ds = pre @ d # post" "isSentinelReset s d" "\<forall>x\<in>set post. \<not> isSentinelReset s x"
    then have ne: "contexts \<noteq> []" by (auto simp: decorated_def)
    show "buildStack X s contexts = blankFirst (map (frameOf X s) (filter hasCall post))"
      using loop_sentinel [OF h(1) [unfolded decorated_def] h(2) h(3)] ne
      by (simp add: buildStack_def)
  qed
  have e: "buildStack X s contexts = [] \<or> functionName (hd (buildStack X s contexts)) = []"
    using loop_first_name [of "[]" X s False "[]" R_NilValue R_NilValue contexts]
    by (simp add: buildStack_def)
  show ?thesis unfolding Let_def using a b c d e by blast
qed

text \<open>
  The instance of the claim: top-level code that is not file-backed calls \<open>f\<close>, \<open>f\<close>
  calls \<open>g\<close>, \<open>g\<close> calls \<open>h\<close>, and a step stop suspends execution inside \<open>h\<close>. The
  snapshot has no sentinel, and \<open>getStack\<close> then returns exactly the three frames of
  \<open>f\<close>, \<open>g\<close> and \<open>h\<close>, in that order. The second instance is a snapshot whose second
  context follows a sentinel: the stack is built from the contexts after it.
\<close>

theorem buildStack_characterised_witness:
  "list_all (\<lambda>d. \<not> isSentinelReset s_susp d) (decorated X0 s_susp (getContextDump (Obj 14) s_susp))
   \<and> buildStack X0 s_susp (getContextDump (Obj 14) s_susp) = stack_fgh
   \<and> getStack (doBreakpoint X0 (Obj 14) None True (Obj 3) s_fgh) = stack_fgh
   \<and> isSentinelReset s_sentinel (decorated X0 s_sentinel dump_sentinel ! 1)
   \<and> list_all (\<lambda>d. \<not> isSentinelReset s_sentinel d) (drop 2 (decorated X0 s_sentinel dump_sentinel))
   \<and> buildStack X0 s_sentinel dump_sentinel =
        blankFirst (map (frameOf X0 s_sentinel)
          (filter hasCall (drop 2 (decorated X0 s_sentinel dump_sentinel))))"
proof -
  have ns: "\<forall>d\<in>set (decorated X0 s_susp dump_fgh). \<not> isSentinelReset s_susp d"
    by (simp add: decorated_susp isSentinelReset_def attrib_susp attrib_fgh_def)
  have "(\<forall>d\<in>set (decorated X0 s_susp dump_fgh). \<not> isSentinelReset s_susp d) \<longrightarrow>
        buildStack X0 s_susp dump_fgh =
          blankFirst (map (frameOf X0 s_susp) (filter hasCall
            (dropWhile (\<lambda>d. \<not> isPhysicalAt s_susp d) (decorated X0 s_susp dump_fgh))))"
    using buildStack_characterised [of X0 s_susp dump_fgh] unfolding Let_def by blast
  with ns have "buildStack X0 s_susp dump_fgh =
          blankFirst (map (frameOf X0 s_susp) (filter hasCall
            (dropWhile (\<lambda>d. \<not> isPhysicalAt s_susp d) (decorated X0 s_susp dump_fgh))))"
    by blast
  then have one: "buildStack X0 s_susp dump_fgh = stack_fgh"
    by (simp add: decorated_susp isPhysicalAt_def hasCall_def frameOf_def attrib_susp
          attrib_fgh_def stack_fgh_def cd_f_def cd_g_def cd_h_def cd_current_def X0_simps)
  let ?ds = "decorated X0 s_sentinel dump_sentinel"
  have split: "?ds = [?ds ! 0] @ (?ds ! 1) # drop 2 ?ds"
    by (simp add: decorated_sentinel)
  have sen: "isSentinelReset s_sentinel (?ds ! 1)"
    unfolding decorated_sentinel
    by (simp add: isSentinelReset_def s_sentinel_def Rf_getAttrib_def dump_sentinel_def)
  have post: "\<forall>x\<in>set (drop 2 ?ds). \<not> isSentinelReset s_sentinel x"
    unfolding decorated_sentinel
    by (simp add: isSentinelReset_def s_sentinel_def Rf_getAttrib_def dump_sentinel_def)
  have "\<forall>pre d post. ?ds = pre @ d # post \<and> isSentinelReset s_sentinel d
          \<and> (\<forall>x\<in>set post. \<not> isSentinelReset s_sentinel x) \<longrightarrow>
        buildStack X0 s_sentinel dump_sentinel
          = blankFirst (map (frameOf X0 s_sentinel) (filter hasCall post))"
    using buildStack_characterised [of X0 s_sentinel dump_sentinel] unfolding Let_def by blast
  with split sen post have two: "buildStack X0 s_sentinel dump_sentinel =
        blankFirst (map (frameOf X0 s_sentinel) (filter hasCall (drop 2 ?ds)))"
    by blast
  from ns one sen post two show ?thesis
    by (simp add: getContextDump_susp getStack_suspended list_all_iff)
qed

text \<open>
  The claim as stated fails after a stack-bottom sentinel: the context that follows the
  sentinel latches \<open>wasStackBottom\<close>, and the next context is emitted although no
  context of the snapshot has a physical file.
\<close>

theorem buildStack_sentinel_without_physical_frame:
  "filter (isPhysicalAt s_sentinel) (decorated X0 s_sentinel dump_sentinel) = []
   \<and> buildStack X0 s_sentinel dump_sentinel =
       [\<lparr>fileId = [], line = 0, environment = Obj 2, functionName = []\<rparr>]"
  by (simp add: decorated_def dump_sentinel_def s_sentinel_def isPhysicalAt_def effectiveSrcref_def
        nextFunctionSrcref_def Rf_getAttrib_def buildStack_def Let_def X0_def)

subsection \<open>Stepping state machine\<close>

text \<open>
  C2. After \<open>setRunToPositionCommand\<close> has resolved a target (engine enabled, no interrupt
  pending), the target is recorded and armed, and the interceptor suspends at a statement
  with that target: whatever the breakpoint and the stepping state, the prompt is invoked
  once. That suspension clears the target. After the host resumes with any command, the
  firing logic at the same position does not suspend when neither a step stop nor a
  breakpoint asks for it. In general, every suspension leaves the target cleared, whether
  or not the target was hit, and clears the debug bit of the target it clears unless the
  store holds a breakpoint for the target's position (which \<open>refreshBreakpoint\<close> then
  arms again); and with the target cleared a call without step stop and breakpoint never
  suspends.
\<close>

theorem runToPosition_suspends_once:
  assumes "isEnabled s" "\<not> R_interrupts_pending s" "getStepSrcref X file ln = t" "t \<noteq> R_NilValue"
  shows "let s1 = setRunToPositionCommand X file ln s in
      runToPositionTarget s1 = t \<and> RDEBUG s1 t
    \<and> (\<forall>p fe rho srcrefs i arg. getSrcrefAt X srcrefs i = t \<longrightarrow>
          promptCount (doBegin_hook X p fe rho srcrefs i arg s1) = Suc (promptCount s1))
    \<and> (\<forall>call bp step env.
         let s2 = doBreakpoint X call bp step env (s1\<lparr>R_Srcref := Some t\<rparr>) in
           promptCount s2 = Suc (promptCount s1)
         \<and> runToPositionTarget s2 = R_NilValue
         \<and> (\<not> hasBreakpoint s1 (fst (srcrefToPosition X t)) (snd (srcrefToPosition X t))
               \<longrightarrow> \<not> RDEBUG s2 t)
         \<and> (\<forall>c call' env'.
              promptCount (doBreakpoint X call' None False env' ((setCommand X c s2)\<lparr>R_Srcref := Some t\<rparr>))
                = promptCount s2))
    \<and> (\<forall>s' call bp step env.
          promptCount (doBreakpoint X call bp step env s') \<noteq> promptCount s' \<longrightarrow>
          runToPositionTarget (doBreakpoint X call bp step env s') = R_NilValue
          \<and> (runToPositionTarget s' \<noteq> R_NilValue
               \<and> \<not> hasBreakpoint s' (fst (srcrefToPosition X (runToPositionTarget s')))
                     (snd (srcrefToPosition X (runToPositionTarget s')))
              \<longrightarrow> \<not> RDEBUG (doBreakpoint X call bp step env s') (runToPositionTarget s')))
    \<and> (\<forall>s' call env. runToPositionTarget s' = R_NilValue \<longrightarrow>
          promptCount (doBreakpoint X call None False env s') = promptCount s')"
proof -
  let ?s1 = "setRunToPositionCommand X file ln s"
  note f = setRunToPositionCommand_fields [OF assms(3,4), of s]
  let ?sr = "?s1\<lparr>R_Srcref := Some t\<rparr>"
  have run: "isEnabled ?sr" "\<not> R_interrupts_pending ?sr" "currentCommand ?sr \<noteq> STOP"
    using assms(1,2) f by simp_all
  have hit: "rtpHit ?sr" using f(4) assms(4) by (simp add: rtpHit_def)
  have a: "runToPositionTarget ?s1 = t \<and> RDEBUG ?s1 t" using f by simp
  have pc: "\<And>call bp step env.
      promptCount (doBreakpoint X call bp step env ?sr) = Suc (promptCount ?s1)"
    using hit by (simp add: doBreakpoint_promptCount [OF run])
  have tg: "\<And>call bp step env. runToPositionTarget (doBreakpoint X call bp step env ?sr) = R_NilValue"
    using hit by (simp add: doBreakpoint_suspended_target [OF run])
  have b: "\<forall>p fe rho srcrefs i arg. getSrcrefAt X srcrefs i = t \<longrightarrow>
          promptCount (doBegin_hook X p fe rho srcrefs i arg ?s1) = Suc (promptCount ?s1)"
    using f(5) pc by (simp add: doBegin_hook_def Let_def RDEBUG_def)
  have dis: "\<And>call bp step env.
      \<not> hasBreakpoint ?s1 (fst (srcrefToPosition X t)) (snd (srcrefToPosition X t)) \<Longrightarrow>
      \<not> RDEBUG (doBreakpoint X call bp step env ?sr) t"
  proof -
    fix call bp step env
    assume nb: "\<not> hasBreakpoint ?s1 (fst (srcrefToPosition X t)) (snd (srcrefToPosition X t))"
    have ch: "promptCount (doBreakpoint X call bp step env ?sr) \<noteq> promptCount ?sr"
      by (simp add: pc)
    have tgt: "runToPositionTarget ?sr = t" using f(4) by simp
    have nb': "\<not> hasBreakpoint ?sr (fst (srcrefToPosition X t)) (snd (srcrefToPosition X t))"
      using nb by (simp add: hasBreakpoint_def)
    show "\<not> RDEBUG (doBreakpoint X call bp step env ?sr) t"
      by (rule doBreakpoint_disarms [OF ch tgt assms(4) nb'])
  qed
  have again: "\<And>s2 c call' env'.
      promptCount (doBreakpoint X call' None False env' ((setCommand X c s2)\<lparr>R_Srcref := Some t\<rparr>))
        = promptCount s2"
    by (simp add: doBreakpoint_no_target)
  have c: "\<forall>s' call bp step env.
          promptCount (doBreakpoint X call bp step env s') \<noteq> promptCount s' \<longrightarrow>
          runToPositionTarget (doBreakpoint X call bp step env s') = R_NilValue
          \<and> (runToPositionTarget s' \<noteq> R_NilValue
               \<and> \<not> hasBreakpoint s' (fst (srcrefToPosition X (runToPositionTarget s')))
                     (snd (srcrefToPosition X (runToPositionTarget s')))
              \<longrightarrow> \<not> RDEBUG (doBreakpoint X call bp step env s') (runToPositionTarget s'))"
    using doBreakpoint_clears_target doBreakpoint_disarms by blast
  have d: "\<forall>s' call env. runToPositionTarget s' = R_NilValue \<longrightarrow>
          promptCount (doBreakpoint X call None False env s') = promptCount s'"
    using doBreakpoint_no_target by blast
  show ?thesis
    unfolding Let_def using a b c d by (simp add: pc tg dis again)
qed

theorem runToPosition_suspends_once_witness:
  "isEnabled s_fgh \<and> \<not> R_interrupts_pending s_fgh \<and> getStepSrcref X0 ''a.r'' 10 = Obj 100
   \<and> runToPositionTarget s_rtp = Obj 100 \<and> RDEBUG s_rtp (Obj 100)
   \<and> promptCount (doBegin_hook X0 False (Obj 3) (Obj 3) (Obj 30) 1 (Obj 14) s_rtp) = Suc (promptCount s_rtp)
   \<and> runToPositionTarget (doBreakpoint X0 (Obj 14) None False (Obj 3) (s_rtp\<lparr>R_Srcref := Some (Obj 100)\<rparr>))
       = R_NilValue
   \<and> \<not> RDEBUG (doBreakpoint X0 (Obj 14) None False (Obj 3) (s_rtp\<lparr>R_Srcref := Some (Obj 100)\<rparr>)) (Obj 100)
   \<and> promptCount (doBreakpoint X0 (Obj 14) None False (Obj 3)
        ((setCommand X0 CONTINUE
            (doBreakpoint X0 (Obj 14) None False (Obj 3) (s_rtp\<lparr>R_Srcref := Some (Obj 100)\<rparr>)))
          \<lparr>R_Srcref := Some (Obj 100)\<rparr>))
       = promptCount (doBreakpoint X0 (Obj 14) None False (Obj 3) (s_rtp\<lparr>R_Srcref := Some (Obj 100)\<rparr>))"
proof -
  have h: "isEnabled s_fgh" "\<not> R_interrupts_pending s_fgh" "getStepSrcref X0 ''a.r'' 10 = Obj 100"
    "Obj 100 \<noteq> R_NilValue"
    by (simp_all add: s_fgh_def s_init_def X0_simps)
  have g: "getSrcrefAt X0 (Obj 30) 1 = Obj 100" by (simp add: X0_simps)
  have nb: "\<not> hasBreakpoint s_rtp (fst (srcrefToPosition X0 (Obj 100))) (snd (srcrefToPosition X0 (Obj 100)))"
    by (simp add: hasBreakpoint_def s_rtp_def setRunToPositionCommand_def resetRunToPositionTarget_def
          Let_def s_fgh_def s_init_def X0_simps)
  note t = runToPosition_suspends_once [OF h, unfolded Let_def, folded s_rtp_def]
  show ?thesis
    using t h(1-3) g nb by simp
qed

text \<open>
  C3, as amended. After \<open>setCommand c\<close> the current command is \<open>c\<close>, and on the
  environments of the call contexts of the live chain (none of them nil): for
  \<open>CONTINUE\<close> and \<open>STEP_INTO\<close> the stop-here marker is cleared on all of them; for
  \<open>STEP_OVER\<close> it is set on all of them; for \<open>STEP_OUT\<close> it is set on every enclosing
  call frame, and cleared on the innermost one provided no enclosing call frame has the
  same environment; for the other commands no marker changes.
\<close>

theorem setCommand_markers:
  assumes "R_NilValue \<notin> set (callEnvs s)"
  shows "let s' = setCommand X c s; es = callEnvs s in
     currentCommand s' = c \<and>
     (c = CONTINUE \<or> c = STEP_INTO \<longrightarrow> (\<forall>e\<in>set es. marker s' e = R_NilValue)) \<and>
     (c = STEP_OVER \<longrightarrow> (\<forall>e\<in>set es. marker s' e = Lgl True)) \<and>
     (c = STEP_OUT \<longrightarrow> (\<forall>e\<in>set (tl es). marker s' e = Lgl True)
          \<and> (es \<noteq> [] \<and> hd es \<notin> set (tl es) \<longrightarrow> marker s' (hd es) = R_NilValue)) \<and>
     (c = FORCE_STEP_INTO \<or> c = PAUSE \<or> c = STOP \<longrightarrow> (\<forall>e. marker s' e = marker s e))"
proof -
  let ?s3 = "(resetRunToPositionTarget X (s\<lparr>currentCommand := c\<rparr>))\<lparr>runToPositionTarget := R_NilValue\<rparr>"
  have s': "setCommand X c s = setCommand_loop c True (R_GlobalContext s) ?s3"
    by (simp add: setCommand_def Let_def)
  have m3: "\<And>e. marker ?s3 e = marker s e"
    by (simp add: marker_def Rf_getAttrib_def)
  have es: "callEnvs s = envsOf (R_GlobalContext s)"
    by (simp add: callEnvs_def envsOf_def)
  show ?thesis
    using assms
    unfolding Let_def s' es
    by (cases "envsOf (R_GlobalContext s)")
       (auto simp: loop_clear loop_over loop_out_first loop_other m3)
qed

theorem setCommand_markers_witness:
  "R_NilValue \<notin> set (callEnvs s_fgh)
   \<and> currentCommand (setCommand X0 STEP_OUT s_fgh) = STEP_OUT
   \<and> marker (setCommand X0 STEP_OUT s_fgh) (Obj 3) = R_NilValue
   \<and> marker (setCommand X0 STEP_OUT s_fgh) (Obj 2) = Lgl True
   \<and> marker (setCommand X0 STEP_OUT s_fgh) (Obj 1) = Lgl True
   \<and> marker (setCommand X0 STEP_OVER s_fgh) (Obj 3) = Lgl True
   \<and> marker (setCommand X0 STEP_OVER s_fgh) (Obj 2) = Lgl True
   \<and> marker (setCommand X0 STEP_OVER s_fgh) (Obj 1) = Lgl True
   \<and> marker (setCommand X0 CONTINUE (setCommand X0 STEP_OVER s_fgh)) (Obj 3) = R_NilValue
   \<and> marker (setCommand X0 CONTINUE (setCommand X0 STEP_OVER s_fgh)) (Obj 1) = R_NilValue
   \<and> marker (setCommand X0 PAUSE (setCommand X0 STEP_OVER s_fgh)) (Obj 1) = Lgl True"
proof -
  have e: "callEnvs (setCommand X0 STEP_OVER s_fgh) = callEnvs s_fgh"
    by (simp add: callEnvs_def)
  have a: "marker (setCommand X0 STEP_OVER s_fgh) (Obj 3) = Lgl True
     \<and> marker (setCommand X0 STEP_OVER s_fgh) (Obj 2) = Lgl True
     \<and> marker (setCommand X0 STEP_OVER s_fgh) (Obj 1) = Lgl True"
    using setCommand_markers [of s_fgh X0 STEP_OVER] by (simp add: callEnvs_fgh Let_def)
  show ?thesis
    using setCommand_markers [of s_fgh X0 STEP_OUT] a
      setCommand_markers [of "setCommand X0 STEP_OVER s_fgh" X0 CONTINUE]
      setCommand_markers [of "setCommand X0 STEP_OVER s_fgh" X0 PAUSE]
    by (simp add: callEnvs_fgh e Let_def)
qed

text \<open>
  The claim as stated fails when the innermost call context shares its environment with
  an enclosing one: the marker is an attribute of the environment, and the loop sets it
  again when it reaches the enclosing context. After \<open>STEP_OUT\<close> the innermost call
  frame's marker is then set.
\<close>

theorem setCommand_STEP_OUT_shared_environment:
  "isCallContext (hd (R_GlobalContext s_alias))
   \<and> getEnvironment (hd (R_GlobalContext s_alias)) = Obj 2
   \<and> marker (setCommand X0 STEP_OUT s_alias) (Obj 2) = Lgl True"
  by (simp add: s_alias_def s_init_def setCommand_def resetRunToPositionTarget_def Let_def
        ctx_f_def ctx_g_def ctx_h_def ctx_top_def)

subsection \<open>Firing logic\<close>

text \<open>
  C4. After \<open>muteBreakpoints True\<close> the firing logic ignores the breakpoint it is given:
  it behaves as for \<open>nullptr\<close>, evaluates neither the condition nor the log expression,
  and (when it runs: engine enabled, no interrupt pending, command not \<open>STOP\<close>) invokes the
  prompt exactly when the call is a step stop or the statement is the run-to-position
  target.
\<close>

theorem muted_breakpoints_ignored:
  "let sm = muteBreakpoints True s in
     breakpointsMuted sm
   \<and> doBreakpoint X call bp step env sm = doBreakpoint X call None step env sm
   \<and> evalCount (doBreakpoint X call bp step env sm) = evalCount sm
   \<and> (isEnabled s \<and> \<not> R_interrupts_pending s \<and> currentCommand s \<noteq> STOP \<longrightarrow>
        promptCount (doBreakpoint X call bp step env sm)
          = promptCount sm + (if step \<or> rtpHit sm then 1 else 0))"
proof -
  let ?sm = "muteBreakpoints True s"
  have m: "breakpointsMuted ?sm" by (simp add: muteBreakpoints_def)
  have f: "isEnabled ?sm = isEnabled s" "R_interrupts_pending ?sm = R_interrupts_pending s"
    "currentCommand ?sm = currentCommand s"
    by (simp_all add: muteBreakpoints_def)
  have e: "doBreakpoint X call bp step env ?sm = doBreakpoint X call None step env ?sm"
    by (rule doBreakpoint_muted [OF m])
  show ?thesis
    unfolding Let_def e
    by (simp add: m evalCount_doBreakpoint_None doBreakpoint_promptCount f bpFires_def)
qed

theorem muted_breakpoints_ignored_witness:
  "isEnabled s_bp \<and> \<not> R_interrupts_pending s_bp \<and> currentCommand s_bp \<noteq> STOP
   \<and> promptCount (doBreakpoint X0 (Obj 14) (Some bp_always) False (Obj 3) (muteBreakpoints True s_bp))
       = promptCount (muteBreakpoints True s_bp)
   \<and> evalCount (doBreakpoint X0 (Obj 14) (Some bp_always) False (Obj 3) (muteBreakpoints True s_bp))
       = evalCount (muteBreakpoints True s_bp)
   \<and> promptCount (doBreakpoint X0 (Obj 14) (Some bp_always) True (Obj 3) (muteBreakpoints True s_bp))
       = Suc (promptCount (muteBreakpoints True s_bp))
   \<and> promptCount (doBreakpoint X0 (Obj 14) (Some bp_always) False (Obj 3) s_bp) = Suc (promptCount s_bp)"
proof -
  have f: "isEnabled s_bp" "\<not> R_interrupts_pending s_bp" "currentCommand s_bp \<noteq> STOP"
    "\<not> rtpHit (muteBreakpoints True s_bp)" "\<not> breakpointsMuted s_bp" "\<not> rtpHit s_bp"
    by (simp_all add: s_bp_def addBreakpoint_def X0_def s_init_def Let_def rtpHit_def muteBreakpoints_def)
  have u: "bpFires X0 (Some bp_always) (Obj 3) s_bp"
    by (simp add: bpFires_def bp_always_def checkCondition_def f)
  have w1: "promptCount (doBreakpoint X0 (Obj 14) (Some bp_always) False (Obj 3) (muteBreakpoints True s_bp))
       = promptCount (muteBreakpoints True s_bp) + (if False \<or> rtpHit (muteBreakpoints True s_bp) then 1 else 0)"
    and w2: "evalCount (doBreakpoint X0 (Obj 14) (Some bp_always) False (Obj 3) (muteBreakpoints True s_bp))
       = evalCount (muteBreakpoints True s_bp)"
    using muted_breakpoints_ignored [of s_bp X0 "Obj 14" "Some bp_always" False "Obj 3"] f(1-3)
    unfolding Let_def by blast+
  have w3: "promptCount (doBreakpoint X0 (Obj 14) (Some bp_always) True (Obj 3) (muteBreakpoints True s_bp))
       = promptCount (muteBreakpoints True s_bp) + (if True \<or> rtpHit (muteBreakpoints True s_bp) then 1 else 0)"
    using muted_breakpoints_ignored [of s_bp X0 "Obj 14" "Some bp_always" True "Obj 3"] f(1-3)
    unfolding Let_def by blast
  show ?thesis
    using w1 w2 w3 by (simp add: f u doBreakpoint_promptCount)
qed

text \<open>
  C5. \<open>checkCondition\<close> never throws: its result is always a value. For the empty text
  the value is true and nothing is evaluated. When parsing or evaluation throws, the value
  is false, and a breakpoint with that condition does not make the firing logic suspend.
\<close>

theorem checkCondition_total:
  "(\<exists>b. fst (checkCondition X cond env s) = Inr b)
   \<and> (cond = [] \<longrightarrow> checkCondition X cond env s = (Inr True, s))
   \<and> (\<forall>e. cond \<noteq> [] \<and> parseCode X cond = Inl e \<longrightarrow> fst (checkCondition X cond env s) = Inr False)
   \<and> (\<forall>expr e. cond \<noteq> [] \<and> parseCode X cond = Inr expr \<and> evalq X expr env = Inl e \<longrightarrow>
         fst (checkCondition X cond env s) = Inr False)
   \<and> (\<forall>e. cond \<noteq> [] \<and> checkCondition_try X cond env = Inl e \<longrightarrow>
         fst (checkCondition X cond env s) = Inr False
         \<and> (\<forall>call bp. condition bp = cond \<and> isEnabled s \<and> \<not> R_interrupts_pending s
               \<and> currentCommand s \<noteq> STOP \<and> \<not> rtpHit s \<longrightarrow>
              promptCount (doBreakpoint X call (Some bp) False env s) = promptCount s))"
proof -
  have a: "\<exists>b. fst (checkCondition X cond env s) = Inr b"
    by (rule checkCondition_never_throws)
  have b: "cond = [] \<longrightarrow> checkCondition X cond env s = (Inr True, s)"
    by (simp add: checkCondition_def)
  have c: "\<forall>e. cond \<noteq> [] \<and> parseCode X cond = Inl e \<longrightarrow> fst (checkCondition X cond env s) = Inr False"
    by (simp add: checkCondition_fst checkCondition_try_def)
  have d: "\<forall>expr e. cond \<noteq> [] \<and> parseCode X cond = Inr expr \<and> evalq X expr env = Inl e \<longrightarrow>
         fst (checkCondition X cond env s) = Inr False"
    by (simp add: checkCondition_fst checkCondition_try_def)
  have e: "\<forall>e. cond \<noteq> [] \<and> checkCondition_try X cond env = Inl e \<longrightarrow>
         fst (checkCondition X cond env s) = Inr False
         \<and> (\<forall>call bp. condition bp = cond \<and> isEnabled s \<and> \<not> R_interrupts_pending s
               \<and> currentCommand s \<noteq> STOP \<and> \<not> rtpHit s \<longrightarrow>
              promptCount (doBreakpoint X call (Some bp) False env s) = promptCount s)"
    by (simp add: checkCondition_fst doBreakpoint_promptCount bpFires_def)
  from a b c d e show ?thesis by blast
qed

theorem checkCondition_total_witness:
  "parseCode X0 ''1/0 >'' = Inl (RError ''parse error'')
   \<and> fst (checkCondition X0 ''1/0 >'' (Obj 3) s_bp) = Inr False
   \<and> parseCode X1 ''1/0 > 1'' = Inr (Obj 50)
   \<and> evalq X1 (Obj 50) (Obj 3) = Inl (RError ''division by zero'')
   \<and> fst (checkCondition X1 ''1/0 > 1'' (Obj 3) s_bp) = Inr False
   \<and> fst (checkCondition X0 [] (Obj 3) s_bp) = Inr True
   \<and> isEnabled s_bp \<and> \<not> R_interrupts_pending s_bp \<and> currentCommand s_bp \<noteq> STOP \<and> \<not> rtpHit s_bp
   \<and> promptCount (doBreakpoint X0 (Obj 14) (Some bp_failing) False (Obj 3) s_bp) = promptCount s_bp"
proof -
  have f: "isEnabled s_bp" "\<not> R_interrupts_pending s_bp" "currentCommand s_bp \<noteq> STOP"
    "\<not> rtpHit s_bp"
    by (simp_all add: s_bp_def addBreakpoint_def X0_def s_init_def Let_def rtpHit_def)
  have p: "parseCode X0 ''1/0 >'' = Inl (RError ''parse error'')"
    "checkCondition_try X0 ''1/0 >'' (Obj 3) = Inl (RError ''parse error'')"
    by (simp_all add: X0_def checkCondition_try_def)
  have q: "parseCode X1 ''1/0 > 1'' = Inr (Obj 50)"
    "evalq X1 (Obj 50) (Obj 3) = Inl (RError ''division by zero'')"
    by (simp_all add: X1_def X0_def)
  have x1: "fst (checkCondition X1 ''1/0 > 1'' (Obj 3) s_bp) = Inr False"
    using checkCondition_total [of X1 "''1/0 > 1''" "Obj 3" s_bp] q by simp
  show ?thesis
    using checkCondition_total [of X0 "''1/0 >''" "Obj 3" s_bp] checkCondition_total [of X0 "[]" "Obj 3" s_bp]
      x1
    by (simp add: f p q bp_failing_def)
qed

text \<open>
  C6. When the firing logic runs (engine enabled) with current command \<open>STOP\<close> and no
  interrupt pending, the command becomes \<open>CONTINUE\<close> and one interrupt is raised; the
  prompt is not invoked and the stack is not rebuilt. With an interrupt already pending
  the firing logic changes nothing, whatever the command.
\<close>

theorem STOP_interrupts_without_suspending:
  "(isEnabled s \<and> \<not> R_interrupts_pending s \<and> currentCommand s = STOP \<longrightarrow>
      (let s' = doBreakpoint X call bp step env s in
         currentCommand s' = CONTINUE
         \<and> interruptCount s' = Suc (interruptCount s)
         \<and> promptCount s' = promptCount s \<and> stack s' = stack s))
   \<and> (R_interrupts_pending s \<longrightarrow> doBreakpoint X call bp step env s = s)"
  by (simp add: doBreakpoint_STOP doBreakpoint_skipped Let_def)

theorem STOP_interrupts_without_suspending_witness:
  "isEnabled (s_fgh\<lparr>currentCommand := STOP\<rparr>)
   \<and> \<not> R_interrupts_pending (s_fgh\<lparr>currentCommand := STOP\<rparr>)
   \<and> currentCommand (doBreakpoint X0 (Obj 14) None True (Obj 3) (s_fgh\<lparr>currentCommand := STOP\<rparr>)) = CONTINUE
   \<and> interruptCount (doBreakpoint X0 (Obj 14) None True (Obj 3) (s_fgh\<lparr>currentCommand := STOP\<rparr>)) = 1
   \<and> promptCount (doBreakpoint X0 (Obj 14) None True (Obj 3) (s_fgh\<lparr>currentCommand := STOP\<rparr>)) = 0
   \<and> doBreakpoint X0 (Obj 14) None True (Obj 3) (s_fgh\<lparr>currentCommand := STOP, R_interrupts_pending := True\<rparr>)
        = s_fgh\<lparr>currentCommand := STOP, R_interrupts_pending := True\<rparr>"
  using STOP_interrupts_without_suspending [of "s_fgh\<lparr>currentCommand := STOP\<rparr>" X0 "Obj 14" None True "Obj 3"]
    STOP_interrupts_without_suspending [of "s_fgh\<lparr>currentCommand := STOP, R_interrupts_pending := True\<rparr>" X0 "Obj 14" None True "Obj 3"]
  by (simp add: s_fgh_def s_init_def Let_def interruptCount_def promptCount_def)

subsection \<open>Breakpoint store\<close>

text \<open>
  C7. \<open>addBreakpoint\<close> is idempotent on the key (file, line). Whatever the state, a second
  call with the same key returns the address the first call returned (the same
  \<open>BreakpointInfo\<close> object) and leaves the whole state as the first call left it: the
  store, the debug bit and the attribute of the step target, and the event log, so the
  resolver is not asked again.
\<close>

theorem addBreakpoint_idempotent:
  "fst (addBreakpoint X file ln (snd (addBreakpoint X file ln s))) = fst (addBreakpoint X file ln s)
   \<and> snd (addBreakpoint X file ln (snd (addBreakpoint X file ln s))) = snd (addBreakpoint X file ln s)
   \<and> events (snd (addBreakpoint X file ln (snd (addBreakpoint X file ln s))))
       = events (snd (addBreakpoint X file ln s))"
  by (cases "breakpoints s file"; cases "(case breakpoints s file of None \<Rightarrow> Map.empty | Some m \<Rightarrow> m) ln")
     (auto simp: addBreakpoint_def Let_def logEvent_def setBreakpointInfoAttrib_def SET_RDEBUG_def Rf_setAttrib_def fun_upd_idem)

theorem addBreakpoint_idempotent_witness:
  "fst (addBreakpoint X0 ''a.r'' 10 s_bp) = 0
   \<and> snd (addBreakpoint X0 ''a.r'' 10 s_bp) = s_bp
   \<and> events (snd (addBreakpoint X0 ''a.r'' 10 s_bp)) = [ResolveStep ''a.r'' 10]"
  using addBreakpoint_idempotent [of X0 "''a.r''" 10 s_init]
  by (simp add: s_bp_simps flip: s_bp_def)

text \<open>
  C8. \<open>removeBreakpoint\<close> on an existing entry leaves the entry's step target without
  the \<open>BreakpointInfo\<close> attribute and with the debug bit clear, erases the entry (and
  only it) and frees its \<open>BreakpointInfo\<close>. For an entry whose step target was never
  resolved (nil) nothing but the erasure happens, the debug bit of the nil object being
  clear. Afterwards the interceptor, at a statement with that step target, passes no
  breakpoint to the firing logic and calls it for a step stop only. And when a key is
  added whose step target was unarmed and unattached, and then removed, the attributes and
  the debug bits are what they were before the key was added.
\<close>

theorem removeBreakpoint_restores:
  assumes "breakpoints s file = Some inner" and "inner ln = Some it"
  shows "let s' = removeBreakpoint file ln s in
       getBreakpointInfoAttrib s' (srcref it) = None
     \<and> \<not> RDEBUG s' (srcref it)
     \<and> breakpoints s' = (breakpoints s)(file \<mapsto> inner(ln := None))
     \<and> infoMem s' = (infoMem s)(info it := None)
     \<and> \<not> hasBreakpoint s' file ln
     \<and> (srcref it = R_NilValue \<and> \<not> RDEBUG s R_NilValue \<longrightarrow>
          s' = s\<lparr>breakpoints := (breakpoints s)(file \<mapsto> inner(ln := None)),
                 infoMem := (infoMem s)(info it := None)\<rparr>)
     \<and> (\<forall>X p fe rho srcrefs i arg. getSrcrefAt X srcrefs i = srcref it \<longrightarrow>
          doBegin_hook X p fe rho srcrefs i arg s' =
            (let s1 = s'\<lparr>R_Srcref := Some (srcref it)\<rparr>
             in if doBegin_stopHere s1 p fe then doBreakpoint X arg None True rho s1 else s1))
     \<and> (\<forall>X s0. \<not> hasBreakpoint s0 file ln \<and> \<not> RDEBUG s0 (getStepSrcref X file ln)
            \<and> Rf_getAttrib s0 (getStepSrcref X file ln) breakpointInfoAttr = R_NilValue \<longrightarrow>
          (let s2 = removeBreakpoint file ln (snd (addBreakpoint X file ln s0))
           in attrib s2 = attrib s0 \<and> rdebug s2 = rdebug s0 \<and> \<not> hasBreakpoint s2 file ln
              \<and> infoMem s2 (nextInfo s0) = None))"
proof -
  have main: "let s' = removeBreakpoint file ln s in
       getBreakpointInfoAttrib s' (srcref it) = None
     \<and> \<not> RDEBUG s' (srcref it)
     \<and> breakpoints s' = (breakpoints s)(file \<mapsto> inner(ln := None))
     \<and> infoMem s' = (infoMem s)(info it := None)
     \<and> \<not> hasBreakpoint s' file ln
     \<and> (srcref it = R_NilValue \<and> \<not> RDEBUG s R_NilValue \<longrightarrow>
          s' = s\<lparr>breakpoints := (breakpoints s)(file \<mapsto> inner(ln := None)),
                 infoMem := (infoMem s)(info it := None)\<rparr>)
     \<and> (\<forall>X p fe rho srcrefs i arg. getSrcrefAt X srcrefs i = srcref it \<longrightarrow>
          doBegin_hook X p fe rho srcrefs i arg s' =
            (let s1 = s'\<lparr>R_Srcref := Some (srcref it)\<rparr>
             in if doBegin_stopHere s1 p fe then doBreakpoint X arg None True rho s1 else s1))"
    using assms
    by (auto simp: removeBreakpoint_def Let_def getBreakpointInfoAttrib_def Rf_getAttrib_def
          setBreakpointInfoAttrib_def Rf_setAttrib_def SET_RDEBUG_def RDEBUG_def hasBreakpoint_def
          doBegin_hook_def fun_upd_idem)
  have trip: "\<And>(X::externals) s0. \<not> hasBreakpoint s0 file ln \<Longrightarrow> \<not> RDEBUG s0 (getStepSrcref X file ln)
            \<Longrightarrow> Rf_getAttrib s0 (getStepSrcref X file ln) breakpointInfoAttr = R_NilValue \<Longrightarrow>
          (let s2 = removeBreakpoint file ln (snd (addBreakpoint X file ln s0))
           in attrib s2 = attrib s0 \<and> rdebug s2 = rdebug s0 \<and> \<not> hasBreakpoint s2 file ln
              \<and> infoMem s2 (nextInfo s0) = None)"
  proof -
    fix X :: externals and s0
    assume h: "\<not> hasBreakpoint s0 file ln" "\<not> RDEBUG s0 (getStepSrcref X file ln)"
      "Rf_getAttrib s0 (getStepSrcref X file ln) breakpointInfoAttr = R_NilValue"
    have none: "(case breakpoints s0 file of None \<Rightarrow> Map.empty | Some m \<Rightarrow> m) ln = None"
      using h(1) by (simp add: hasBreakpoint_def split: option.splits)
    show "let s2 = removeBreakpoint file ln (snd (addBreakpoint X file ln s0))
           in attrib s2 = attrib s0 \<and> rdebug s2 = rdebug s0 \<and> \<not> hasBreakpoint s2 file ln
              \<and> infoMem s2 (nextInfo s0) = None"
      using h(2,3) none
      by (auto simp: addBreakpoint_def removeBreakpoint_def Let_def logEvent_def
            setBreakpointInfoAttrib_def Rf_setAttrib_def Rf_getAttrib_def SET_RDEBUG_def RDEBUG_def
            hasBreakpoint_def fun_upd_idem split: if_splits)
  qed
  show ?thesis using main trip unfolding Let_def by blast
qed

theorem removeBreakpoint_restores_witness:
  "breakpoints s_bp ''a.r'' = Some (Map.empty(10 \<mapsto> \<lparr>srcref = Obj 100, info = 0\<rparr>))
   \<and> RDEBUG s_bp (Obj 100) \<and> getBreakpointInfoAttrib s_bp (Obj 100) = Some 0
   \<and> getBreakpointInfoAttrib (removeBreakpoint ''a.r'' 10 s_bp) (Obj 100) = None
   \<and> \<not> RDEBUG (removeBreakpoint ''a.r'' 10 s_bp) (Obj 100)
   \<and> \<not> hasBreakpoint (removeBreakpoint ''a.r'' 10 s_bp) ''a.r'' 10
   \<and> attrib (removeBreakpoint ''a.r'' 10 s_bp) = attrib s_init
   \<and> rdebug (removeBreakpoint ''a.r'' 10 s_bp) = rdebug s_init
   \<and> breakpoints s_unresolved ''b.r'' = Some (Map.empty(1 \<mapsto> \<lparr>srcref = R_NilValue, info = 0\<rparr>))
   \<and> attrib (removeBreakpoint ''b.r'' 1 s_unresolved) = attrib s_unresolved
   \<and> rdebug (removeBreakpoint ''b.r'' 1 s_unresolved) = rdebug s_unresolved"
proof -
  note a = removeBreakpoint_restores [of s_bp "''a.r''"
      "Map.empty(10 \<mapsto> \<lparr>srcref = Obj 100, info = 0\<rparr>)" 10 "\<lparr>srcref = Obj 100, info = 0\<rparr>",
      unfolded Let_def]
  note b = removeBreakpoint_restores [of s_unresolved "''b.r''"
      "Map.empty(1 \<mapsto> \<lparr>srcref = R_NilValue, info = 0\<rparr>)" 1 "\<lparr>srcref = R_NilValue, info = 0\<rparr>",
      unfolded Let_def]
  have h: "\<not> hasBreakpoint s_init ''a.r'' 10" "\<not> RDEBUG s_init (getStepSrcref X0 ''a.r'' 10)"
    "Rf_getAttrib s_init (getStepSrcref X0 ''a.r'' 10) breakpointInfoAttr = R_NilValue"
    by (simp_all add: hasBreakpoint_def s_init_def RDEBUG_def Rf_getAttrib_def)
  have one: "getBreakpointInfoAttrib (removeBreakpoint ''a.r'' 10 s_bp) (Obj 100) = None
     \<and> \<not> RDEBUG (removeBreakpoint ''a.r'' 10 s_bp) (Obj 100)
     \<and> \<not> hasBreakpoint (removeBreakpoint ''a.r'' 10 s_bp) ''a.r'' 10"
    using a by (simp add: s_bp_simps)
  have trip: "attrib (removeBreakpoint ''a.r'' 10 s_bp) = attrib s_init
     \<and> rdebug (removeBreakpoint ''a.r'' 10 s_bp) = rdebug s_init"
  proof -
    from a [OF s_bp_simps(1)] have "\<forall>X s0. \<not> hasBreakpoint s0 ''a.r'' 10
         \<and> \<not> RDEBUG s0 (getStepSrcref X ''a.r'' 10)
         \<and> Rf_getAttrib s0 (getStepSrcref X ''a.r'' 10) breakpointInfoAttr = R_NilValue \<longrightarrow>
         attrib (removeBreakpoint ''a.r'' 10 (snd (addBreakpoint X ''a.r'' 10 s0))) = attrib s0
         \<and> rdebug (removeBreakpoint ''a.r'' 10 (snd (addBreakpoint X ''a.r'' 10 s0))) = rdebug s0"
      by simp
    with h show ?thesis unfolding s_bp_def by blast
  qed
  have two: "attrib (removeBreakpoint ''b.r'' 1 s_unresolved) = attrib s_unresolved
     \<and> rdebug (removeBreakpoint ''b.r'' 1 s_unresolved) = rdebug s_unresolved"
  proof -
    from b [OF s_unresolved_simps(1)] s_unresolved_simps(2)
    have "removeBreakpoint ''b.r'' 1 s_unresolved =
        s_unresolved\<lparr>breakpoints := (breakpoints s_unresolved)
                        (''b.r'' \<mapsto> (Map.empty(1 \<mapsto> \<lparr>srcref = R_NilValue, info = 0\<rparr>))(1 := None)),
                     infoMem := (infoMem s_unresolved)(0 := None)\<rparr>"
      by simp
    then show ?thesis by simp
  qed
  from one trip two show ?thesis by (simp add: s_bp_simps s_unresolved_simps)
qed

subsection \<open>Last-error stack\<close>

text \<open>
  C9. \<open>getLastErrorStack\<close> builds the stack of the stored snapshot with \<open>buildStack\<close> and
  drops its last frame: when three frames are built the result is the first two. The
  stored snapshot is the one \<open>doHandleException\<close> took with \<open>getContextDump\<close> at the
  failure. After \<open>resetLastErrorStack\<close> the result is empty.
\<close>

theorem getLastErrorStack_drops_innermost:
  "getLastErrorStack X s = butlast (buildStack X s (lastErrorStackDump s))
   \<and> (\<forall>a b c. buildStack X s (lastErrorStackDump s) = [a, b, c] \<longrightarrow> getLastErrorStack X s = [a, b])
   \<and> lastErrorStackDump (doHandleException s) = getContextDump R_NilValue s
   \<and> getLastErrorStack X (resetLastErrorStack s) = []"
  by (simp add: getLastErrorStack_def resetLastErrorStack_def buildStack_def Let_def
        doHandleException_def)

theorem getLastErrorStack_drops_innermost_witness:
  "buildStack X0 s_err (lastErrorStackDump s_err) = stack_fgh
   \<and> getLastErrorStack X0 s_err =
       [\<lparr>fileId = ''a.r'', line = 5, environment = Obj 1, functionName = []\<rparr>,
        \<lparr>fileId = ''a.r'', line = 8, environment = Obj 2, functionName = ''g''\<rparr>]
   \<and> getLastErrorStack X0 (resetLastErrorStack s_err) = []"
  using getLastErrorStack_drops_innermost [of X0 s_err]
  by (simp add: buildStack_s_err stack_fgh_def)

subsection \<open>Evaluation interceptor\<close>

text \<open>
  C10. Take a block of statements \<open>args\<close> entered in state \<open>s\<close>, and any of its statements,
  the one at position \<open>k\<close>; let \<open>sk\<close> be the state in which the interceptor reaches it,
  that is after the block's entry and its first \<open>k\<close> statements. The block is physical when
  the source file of its source reference 0 carries the physical-file flag in \<open>s\<close>.

  If the command in \<open>sk\<close> is \<open>STEP_INTO\<close> and the block is physical, the firing logic is
  called for the statement as a step stop before the statement is evaluated. If the command
  is \<open>STEP_INTO\<close> and the block is not physical, the firing logic is called only when the
  statement's source reference is armed, and then not as a step stop: the statement is
  otherwise evaluated directly, and the number of prompts rises only for an armed statement
  whose breakpoint fires or whose run-to-position target is reached. If the command is
  \<open>FORCE_STEP_INTO\<close> or \<open>PAUSE\<close>, the firing logic is called as a step stop whatever the
  physicality of the block. A call as a step stop prompts exactly once when the engine is
  enabled and no interrupt is pending.
\<close>

theorem doBegin_every_statement:
  assumes "k < length args"
  shows "let srcrefs = getBlockSrcrefs X call;
             physical = (Rf_getAttrib s (Rf_getAttrib s (getSrcrefAt X srcrefs 0) srcfileAttr)
                           isPhysicalFileFlag \<noteq> R_NilValue);
             sk = snd (doBegin X call (take k args) rho s);
             r = getSrcrefAt X srcrefs (Suc k);
             here = sk\<lparr>R_Srcref := Some r\<rparr>;
             bp = (if RDEBUG sk r then derefInfo sk (getBreakpointInfoAttrib sk r) else None);
             finish = (\<lambda>st. (fst (Rf_eval X (args ! k) rho st),
                             (snd (Rf_eval X (args ! k) rho st))\<lparr>R_Srcref := Some R_NilValue\<rparr>))
         in (currentCommand sk = STEP_INTO \<and> physical \<longrightarrow>
               doBegin X call (take (Suc k) args) rho s =
                 finish (doBreakpoint X (args ! k) bp True rho here))
          \<and> (currentCommand sk = STEP_INTO \<and> \<not> physical \<longrightarrow>
               doBegin X call (take (Suc k) args) rho s =
                 finish (if RDEBUG sk r then doBreakpoint X (args ! k) bp False rho here else here))
          \<and> (currentCommand sk = FORCE_STEP_INTO \<or> currentCommand sk = PAUSE \<longrightarrow>
               doBegin X call (take (Suc k) args) rho s =
                 finish (doBreakpoint X (args ! k) bp True rho here))
          \<and> ((currentCommand sk = STEP_INTO \<or> currentCommand sk = FORCE_STEP_INTO
                \<or> currentCommand sk = PAUSE)
               \<and> isEnabled sk \<and> \<not> R_interrupts_pending sk \<longrightarrow>
               promptCount (doBreakpoint X (args ! k) bp True rho here) = Suc (promptCount sk))
          \<and> (currentCommand sk = STEP_INTO \<longrightarrow>
               promptCount (if RDEBUG sk r then doBreakpoint X (args ! k) bp False rho here else here)
                 = promptCount sk
                    + (if RDEBUG sk r \<and> isEnabled sk \<and> \<not> R_interrupts_pending sk
                          \<and> (rtpHit here \<or> bpFires X bp rho here) then 1 else 0))"
proof -
  let ?srcrefs = "getBlockSrcrefs X call"
  let ?physical = "Rf_getAttrib s (Rf_getAttrib s (getSrcrefAt X ?srcrefs 0) srcfileAttr)
                           isPhysicalFileFlag \<noteq> R_NilValue"
  let ?sk = "snd (doBegin X call (take k args) rho s)"
  let ?r = "getSrcrefAt X ?srcrefs (Suc k)"
  let ?here = "?sk\<lparr>R_Srcref := Some ?r\<rparr>"
  let ?bp = "if RDEBUG ?sk ?r then derefInfo ?sk (getBreakpointInfoAttrib ?sk ?r) else None"
  let ?finish = "\<lambda>st. (fst (Rf_eval X (args ! k) rho st),
                             (snd (Rf_eval X (args ! k) rho st))\<lparr>R_Srcref := Some R_NilValue\<rparr>)"
  let ?full = "doBegin X call (take (Suc k) args) rho s"
  have ph: "doBegin_isPhysical X s call = ?physical"
    by (simp add: doBegin_isPhysical_def)
  have a: "currentCommand ?sk = STEP_INTO \<and> ?physical \<longrightarrow>
      ?full = ?finish (doBreakpoint X (args ! k) ?bp True rho ?here)"
    by (simp add: doBegin_step [OF assms] Let_def doBegin_hook_def doBegin_stopHere_def ph RDEBUG_def)
  have b: "currentCommand ?sk = STEP_INTO \<and> \<not> ?physical \<longrightarrow>
      ?full = ?finish (if RDEBUG ?sk ?r then doBreakpoint X (args ! k) ?bp False rho ?here else ?here)"
    by (simp add: doBegin_step [OF assms] Let_def doBegin_hook_def doBegin_stopHere_def ph RDEBUG_def)
  have c: "currentCommand ?sk = FORCE_STEP_INTO \<or> currentCommand ?sk = PAUSE \<longrightarrow>
      ?full = ?finish (doBreakpoint X (args ! k) ?bp True rho ?here)"
    by (auto simp: doBegin_step [OF assms] Let_def doBegin_hook_def doBegin_stopHere_def RDEBUG_def)
  have d: "(currentCommand ?sk = STEP_INTO \<or> currentCommand ?sk = FORCE_STEP_INTO
            \<or> currentCommand ?sk = PAUSE)
      \<and> isEnabled ?sk \<and> \<not> R_interrupts_pending ?sk \<longrightarrow>
      promptCount (doBreakpoint X (args ! k) ?bp True rho ?here) = Suc (promptCount ?sk)"
    by (auto simp: doBreakpoint_promptCount)
  have e: "currentCommand ?sk = STEP_INTO \<longrightarrow>
      promptCount (if RDEBUG ?sk ?r then doBreakpoint X (args ! k) ?bp False rho ?here else ?here)
        = promptCount ?sk
           + (if RDEBUG ?sk ?r \<and> isEnabled ?sk \<and> \<not> R_interrupts_pending ?sk
                 \<and> (rtpHit ?here \<or> bpFires X ?bp rho ?here) then 1 else 0)"
  proof (cases "isEnabled ?sk \<and> \<not> R_interrupts_pending ?sk")
    case True
    then show ?thesis by (simp add: doBreakpoint_promptCount)
  next
    case False
    then have "\<And>bp. doBreakpoint X (args ! k) bp False rho ?here = ?here"
      by (intro doBreakpoint_skipped) auto
    with False show ?thesis by auto
  qed
  show ?thesis unfolding Let_def using a b c d e by blast
qed

theorem doBegin_every_statement_witness:
  "promptCount (snd (doBegin X2 (Obj 30) [Obj 14, Obj 16] (Obj 3) (s_fgh\<lparr>currentCommand := PAUSE\<rparr>))) = 2
   \<and> promptCount (snd (doBegin X3 (Obj 30) [Obj 14, Obj 16] (Obj 3)
        (s_fgh\<lparr>currentCommand := STEP_INTO\<rparr>))) = 2
   \<and> doBegin X0 (Obj 30) [Obj 14, Obj 16] (Obj 3) (s_fgh\<lparr>currentCommand := STEP_INTO\<rparr>)
       = (R_NilValue, s_fgh\<lparr>currentCommand := STEP_INTO, R_Srcref := Some R_NilValue\<rparr>)"
proof -
  let ?P = "s_fgh\<lparr>currentCommand := PAUSE\<rparr>"
  let ?S = "s_fgh\<lparr>currentCommand := STEP_INTO\<rparr>"
  have k0: "0 < length [Obj 14, Obj 16]" and k1: "1 < length [Obj 14, Obj 16]" by simp_all
  have e2: "doBegin X2 (Obj 30) [] (Obj 3) ?P = (R_NilValue, ?P\<lparr>R_Srcref := Some R_NilValue\<rparr>)"
    by (simp add: doBegin_def Let_def X2_simps RDEBUG_def s_fgh_fields)
  have a1: "doBegin X2 (Obj 30) [Obj 14] (Obj 3) ?P =
      (Obj 14, (doBreakpoint X2 (Obj 14) None True (Obj 3) (?P\<lparr>R_Srcref := Some (Obj 100)\<rparr>))
                 \<lparr>currentCommand := PAUSE, R_Srcref := Some R_NilValue\<rparr>)"
    and a2: "promptCount (doBreakpoint X2 (Obj 14) None True (Obj 3) (?P\<lparr>R_Srcref := Some (Obj 100)\<rparr>)) = 1"
    using doBegin_every_statement [OF k0, where X = X2 and call = "Obj 30" and rho = "Obj 3" and s = ?P]
    by (simp_all add: Let_def e2 X2_simps RDEBUG_def s_fgh_fields)
  let ?P1 = "snd (doBegin X2 (Obj 30) [Obj 14] (Obj 3) ?P)"
  have rP: "isEnabled (?P\<lparr>R_Srcref := Some (Obj 100)\<rparr>)"
    "\<not> R_interrupts_pending (?P\<lparr>R_Srcref := Some (Obj 100)\<rparr>)"
    "currentCommand (?P\<lparr>R_Srcref := Some (Obj 100)\<rparr>) \<noteq> STOP"
    by (simp_all add: s_fgh_fields)
  have a3: "currentCommand ?P1 = PAUSE" "isEnabled ?P1" "\<not> R_interrupts_pending ?P1"
    "promptCount ?P1 = 1"
    using doBreakpoint_keeps_running [OF rP] a2 by (simp_all add: a1)
  have a4: "promptCount (snd (doBegin X2 (Obj 30) [Obj 14, Obj 16] (Obj 3) ?P)) = 2"
    using doBegin_every_statement [OF k1, where X = X2 and call = "Obj 30" and rho = "Obj 3" and s = ?P]
      a3
    by (simp add: Let_def X2_simps)
  have e3: "doBegin X3 (Obj 30) [] (Obj 3) ?S = (R_NilValue, ?S\<lparr>R_Srcref := Some (Obj 102)\<rparr>)"
    by (simp add: doBegin_def Let_def X3_simps RDEBUG_def s_fgh_fields)
  have ph3: "Rf_getAttrib ?S (Rf_getAttrib ?S (getSrcrefAt X3 (getBlockSrcrefs X3 (Obj 30)) 0) srcfileAttr)
               isPhysicalFileFlag \<noteq> R_NilValue"
    by (simp add: X3_simps Rf_getAttrib_def s_fgh_fields attrib_fgh_def)
  have b1: "doBegin X3 (Obj 30) [Obj 14] (Obj 3) ?S =
      (Obj 14, (doBreakpoint X3 (Obj 14) None True (Obj 3) (?S\<lparr>R_Srcref := Some (Obj 100)\<rparr>))
                 \<lparr>currentCommand := STEP_INTO, R_Srcref := Some R_NilValue\<rparr>)"
    and b2: "promptCount (doBreakpoint X3 (Obj 14) None True (Obj 3) (?S\<lparr>R_Srcref := Some (Obj 100)\<rparr>)) = 1"
    using doBegin_every_statement [OF k0, where X = X3 and call = "Obj 30" and rho = "Obj 3" and s = ?S]
      ph3
    by (simp_all add: Let_def e3 X3_simps RDEBUG_def s_fgh_fields)
  let ?S1 = "snd (doBegin X3 (Obj 30) [Obj 14] (Obj 3) ?S)"
  have rS: "isEnabled (?S\<lparr>R_Srcref := Some (Obj 100)\<rparr>)"
    "\<not> R_interrupts_pending (?S\<lparr>R_Srcref := Some (Obj 100)\<rparr>)"
    "currentCommand (?S\<lparr>R_Srcref := Some (Obj 100)\<rparr>) \<noteq> STOP"
    by (simp_all add: s_fgh_fields)
  have b3: "currentCommand ?S1 = STEP_INTO" "isEnabled ?S1" "\<not> R_interrupts_pending ?S1"
    "promptCount ?S1 = 1"
    using doBreakpoint_keeps_running [OF rS] b2 by (simp_all add: b1)
  have b4: "promptCount (snd (doBegin X3 (Obj 30) [Obj 14, Obj 16] (Obj 3) ?S)) = 2"
    using doBegin_every_statement [OF k1, where X = X3 and call = "Obj 30" and rho = "Obj 3" and s = ?S]
      b3 ph3
    by (simp add: Let_def X3_simps)
  have e0: "doBegin X0 (Obj 30) [] (Obj 3) ?S = (R_NilValue, ?S\<lparr>R_Srcref := Some R_NilValue\<rparr>)"
    by (simp add: doBegin_def Let_def X0_simps RDEBUG_def s_fgh_fields)
  have ph0: "\<not> Rf_getAttrib ?S (Rf_getAttrib ?S (getSrcrefAt X0 (getBlockSrcrefs X0 (Obj 30)) 0) srcfileAttr)
               isPhysicalFileFlag \<noteq> R_NilValue"
    by (simp add: X0_simps Rf_getAttrib_def)
  have c1: "doBegin X0 (Obj 30) [Obj 14] (Obj 3) ?S = (R_NilValue, ?S\<lparr>R_Srcref := Some R_NilValue\<rparr>)"
    using doBegin_every_statement [OF k0, where X = X0 and call = "Obj 30" and rho = "Obj 3" and s = ?S]
      ph0
    by (simp add: Let_def e0 X0_simps RDEBUG_def s_fgh_fields)
  have c2: "doBegin X0 (Obj 30) [Obj 14, Obj 16] (Obj 3) ?S = (R_NilValue, ?S\<lparr>R_Srcref := Some R_NilValue\<rparr>)"
    using doBegin_every_statement [OF k1, where X = X0 and call = "Obj 30" and rho = "Obj 3" and s = ?S]
      ph0
    by (simp add: Let_def c1 X0_simps RDEBUG_def s_fgh_fields)
  show ?thesis using a4 b4 c2 by simp
qed

end
